theory Spec2Isabelle
  imports Main "HOL-Library.DAList" "HOL-Library.Multiset"
begin

section \<open>Text primitives of the source language\<close>

text \<open>
  A Python \<open>str\<close> is modelled as a \<open>string\<close>, one \<open>char\<close> per code point; the model
  covers text whose code points are below 256. \<open>isspace\<close> is \<open>str.isspace\<close> on
  that range, \<open>strip\<close> is \<open>str.strip()\<close> and \<open>split_tab\<close> is \<open>str.split('\t')\<close>.
\<close>

abbreviation TAB :: char where "TAB \<equiv> CHR 0x09"
abbreviation LF :: char where "LF \<equiv> CHR 0x0A"
abbreviation CR :: char where "CR \<equiv> CHR 0x0D"

definition isspace :: "char \<Rightarrow> bool" where
  "isspace c = (c \<in> set [CHR 0x09, CHR 0x0A, CHR 0x0B, CHR 0x0C, CHR 0x0D,
                          CHR 0x1C, CHR 0x1D, CHR 0x1E, CHR 0x1F, CHR 0x20,
                          CHR 0x85, CHR 0xA0])"

definition strip :: "string \<Rightarrow> string" where
  "strip s = rev (dropWhile isspace (rev (dropWhile isspace s)))"

fun split_tab :: "string \<Rightarrow> string list" where
  "split_tab [] = [[]]"
| "split_tab (c # cs) =
     (if c = TAB then [] # split_tab cs
      else (case split_tab cs of [] \<Rightarrow> [[c]] | p # ps \<Rightarrow> (c # p) # ps))"

text \<open>
  Iterating over a file opened in text mode yields its lines; with the default
  \<open>newline=None\<close> the terminators \<open>\n\<close>, \<open>\r\n\<close> and \<open>\r\<close> all end a line and are
  handed to the program as \<open>\n\<close>. A last line without terminator is yielded as it is.
\<close>

fun py_lines :: "string \<Rightarrow> string list" where
  "py_lines [] = []"
| "py_lines (c # cs) =
     (if c = LF then [LF] # py_lines cs
      else if c = CR then
        (case cs of [] \<Rightarrow> [[LF]]
         | d # ds \<Rightarrow> if d = LF then [LF] # py_lines ds else [LF] # py_lines cs)
      else (case py_lines cs of [] \<Rightarrow> [[c]] | l # ls \<Rightarrow> (c # l) # ls))"

text \<open>\<open>s.endswith(suffix)\<close> and the slice \<open>s[:-4]\<close>.\<close>

definition endswith :: "string \<Rightarrow> string \<Rightarrow> bool" where
  "endswith s suffix =
     (length suffix \<le> length s \<and> drop (length s - length suffix) s = suffix)"

definition drop_last4 :: "string \<Rightarrow> string" where
  "drop_last4 s = take (length s - 4) s"

section \<open>Data model\<close>

text \<open>
  The tuples the loaders build: a marker row is
  \<open>(snp_id, chromosome, position, genetic_distance)\<close>, a sample row is
  \<open>(sample_id, family_id, father_id, mother_id, sex, phenotype, genotypes)\<close>.
\<close>

type_synonym marker = "string \<times> string \<times> string \<times> string"

type_synonym sample =
  "string \<times> string \<times> string \<times> string \<times> string \<times> string \<times> string list"

abbreviation sample_id_of :: "sample \<Rightarrow> string" where
  "sample_id_of \<equiv> fst"

text \<open>
  Every \<open>print\<close> of a diagnostic is one \<open>message\<close> appended to the log \<open>printed\<close>.
  The constructors carry the values the message interpolates; a malformed row names
  the table it was read from and its 1-based line number.
\<close>

datatype table = MappingTable | MarkerFile string | SampleFile string

datatype schema_reason = RowCounts | MarkerOrder

datatype message =
    MissingInput string
  | EmptyInput string
  | MalformedRow table nat
  | DuplicateKey string
  | UnpairedInput string string
  | NoMarkerFile
  | InconsistentSchema schema_reason
  | DuplicateSampleId string
  | UnmappedChip string
  | RowCountMismatch
  | BundleWriteFailure string
  | ReadFailure string
  | LoadedMappings nat
  | SmallGroupWarning string
  | BundleGenerated string string

fun is_defect :: "message \<Rightarrow> bool" where
  "is_defect (LoadedMappings n) = False"
| "is_defect (SmallGroupWarning b) = False"
| "is_defect (BundleGenerated b z) = False"
| "is_defect m = True"

text \<open>The three files written for one group, each as the sequence of strings written.\<close>

record group_files =
  ped_out :: "string list"
  map_out :: "string list"
  idmap_out :: "string list"

text \<open>
  The attributes of \<open>GenotypeDataSplitter\<close> that the load, validation and split
  steps use. A \<open>dict\<close> keeps its keys unique and in insertion order, and assigning to a
  present key keeps its place: this is \<open>DAList.update\<close> on an association list with
  distinct keys. \<open>archives\<close> collects the archives written, by file name;
  \<open>loose\<close> collects the files that a group whose generation failed part-way has
  left in the directory.
\<close>

record splitter =
  error_status :: bool
  map_data :: "(string, marker list) alist"
  ped_data :: "(string, sample list) alist"
  split_table :: "(string, string \<times> string) alist"
  printed :: "message list"
  archives :: "(string \<times> group_files) list"
  loose :: "(string \<times> string list) list"

definition init :: splitter where
  "init = \<lparr> error_status = False, map_data = DAList.empty, ped_data = DAList.empty,
            split_table = DAList.empty, printed = [], archives = [], loose = [] \<rparr>"

definition report :: "message \<Rightarrow> splitter \<Rightarrow> splitter" where
  "report m s = s\<lparr> printed := printed s @ [m] \<rparr>"

definition fail :: "message \<Rightarrow> splitter \<Rightarrow> splitter" where
  "fail m s = s\<lparr> error_status := True, printed := printed s @ [m] \<rparr>"

text \<open>
  The working directory: the names \<open>os.listdir\<close> returns, in its order, and the decoded
  content of each file. Opening a file that is absent raises and is caught by the
  loader's \<open>except\<close> branch; files that exist are readable text. \<open>creatable\<close> says
  for which names \<open>open(name, 'w')\<close> and \<open>ZipFile(name, 'w')\<close> succeed: they raise
  for a name that cannot be created, such as one that leads into a directory that
  does not exist.
\<close>

record env =
  listing :: "string list"
  files :: "string \<Rightarrow> string option"
  creatable :: "string \<Rightarrow> bool"

section \<open>Loaders\<close>

fun split_table_rows :: "nat \<Rightarrow> string list \<Rightarrow> splitter \<Rightarrow> splitter" where
  "split_table_rows line_num [] s = s"
| "split_table_rows line_num (line # rest) s =
     (let parts = split_tab (strip line) in
      if length parts \<noteq> 3 then
        split_table_rows (Suc line_num) rest (fail (MalformedRow MappingTable line_num) s)
      else
        let chip_id = parts ! 0; sample_name = parts ! 1; breed = parts ! 2 in
        if DAList.lookup (split_table s) chip_id \<noteq> None then
          split_table_rows (Suc line_num) rest (fail (DuplicateKey chip_id) s)
        else
          split_table_rows (Suc line_num) rest
            (s\<lparr> split_table := DAList.update chip_id (sample_name, breed) (split_table s) \<rparr>))"

definition load_split_table :: "env \<Rightarrow> string \<Rightarrow> splitter \<Rightarrow> splitter" where
  "load_split_table e filename s =
     (case files e filename of
        None \<Rightarrow> fail (MissingInput filename) s
      | Some content \<Rightarrow>
          if length content = 0 then fail (EmptyInput filename) s
          else
            let s' = split_table_rows 1 (py_lines content) s in
            report (LoadedMappings (length (DAList.impl_of (split_table s')))) s')"

text \<open>
  The tuple a loader appends for a row that has the expected number of columns:
  \<open>chromosome, snp_id, genetic_distance, position = parts\<close> for a marker row, the
  six leading fields and the slice \<open>parts[6:]\<close> for a sample row.
\<close>

definition map_record :: "string list \<Rightarrow> marker" where
  "map_record parts =
     (let chromosome = parts ! 0; snp_id = parts ! 1;
          genetic_distance = parts ! 2; position = parts ! 3 in
      (snp_id, chromosome, position, genetic_distance))"

definition ped_record :: "string list \<Rightarrow> sample" where
  "ped_record parts =
     (let family_id = parts ! 0; sample_id = parts ! 1; father_id = parts ! 2;
          mother_id = parts ! 3; sex = parts ! 4; phenotype = parts ! 5;
          genotypes = drop 6 parts in
      (sample_id, family_id, father_id, mother_id, sex, phenotype, genotypes))"

fun map_rows :: "string \<Rightarrow> nat \<Rightarrow> string list \<Rightarrow> marker list \<Rightarrow> splitter \<Rightarrow> marker list \<times> splitter" where
  "map_rows filename line_num [] acc s = (acc, s)"
| "map_rows filename line_num (line # rest) acc s =
     (let parts = split_tab (strip line) in
      if length parts \<noteq> 4 then
        map_rows filename (Suc line_num) rest acc
          (fail (MalformedRow (MarkerFile filename) line_num) s)
      else
        map_rows filename (Suc line_num) rest (acc @ [map_record parts]) s)"

definition load_map_file :: "env \<Rightarrow> string \<Rightarrow> splitter \<Rightarrow> marker list \<times> splitter" where
  "load_map_file e filename s =
     (case files e filename of
        None \<Rightarrow> ([], fail (ReadFailure filename) s)
      | Some content \<Rightarrow> map_rows filename 1 (py_lines content) [] s)"

fun ped_rows :: "string \<Rightarrow> nat \<Rightarrow> nat \<Rightarrow> string list \<Rightarrow> sample list \<Rightarrow> splitter \<Rightarrow> sample list \<times> splitter" where
  "ped_rows filename expected_columns line_num [] acc s = (acc, s)"
| "ped_rows filename expected_columns line_num (line # rest) acc s =
     (let parts = split_tab (strip line) in
      if length parts \<noteq> expected_columns then
        ped_rows filename expected_columns (Suc line_num) rest acc
          (fail (MalformedRow (SampleFile filename) line_num) s)
      else
        ped_rows filename expected_columns (Suc line_num) rest (acc @ [ped_record parts]) s)"

definition load_ped_file :: "env \<Rightarrow> string \<Rightarrow> nat \<Rightarrow> splitter \<Rightarrow> sample list \<times> splitter" where
  "load_ped_file e filename expected_snp_count s =
     (let expected_columns = 6 + 2 * expected_snp_count in
      case files e filename of
        None \<Rightarrow> ([], fail (ReadFailure filename) s)
      | Some content \<Rightarrow> ped_rows filename expected_columns 1 (py_lines content) [] s)"

section \<open>Discovery of the input pairs\<close>

definition exists :: "env \<Rightarrow> string \<Rightarrow> bool" where
  "exists e filename = (files e filename \<noteq> None)"

fun scan_listing :: "env \<Rightarrow> string list \<Rightarrow> string list \<times> string list \<Rightarrow> splitter
    \<Rightarrow> (string list \<times> string list) \<times> splitter" where
  "scan_listing e [] found s = (found, s)"
| "scan_listing e (filename # rest) (map_files, ped_files) s =
     (if endswith filename ''.map'' then
        (let prefix = drop_last4 filename; ped_file = prefix @ ''.ped'' in
         if exists e ped_file then
           scan_listing e rest (map_files @ [filename], ped_files @ [ped_file]) s
         else
           scan_listing e rest (map_files, ped_files) (fail (UnpairedInput filename ped_file) s))
      else if endswith filename ''.ped'' then
        (let prefix = drop_last4 filename; map_file = prefix @ ''.map'' in
         if \<not> exists e map_file then
           scan_listing e rest (map_files, ped_files) (fail (UnpairedInput filename map_file) s)
         else scan_listing e rest (map_files, ped_files) s)
      else scan_listing e rest (map_files, ped_files) s)"

definition find_plink_files :: "env \<Rightarrow> splitter \<Rightarrow> (string \<times> string) list \<times> splitter" where
  "find_plink_files e s =
     (let ((map_files, ped_files), s') = scan_listing e (listing e) ([], []) s in
      if map_files = [] then ([], fail NoMarkerFile s')
      else (zip map_files ped_files, s'))"

text \<open>One iteration of the loading loop of \<open>run\<close>, and the loop.\<close>

definition load_pair :: "env \<Rightarrow> string \<times> string \<Rightarrow> splitter \<Rightarrow> splitter" where
  "load_pair e pair s =
     (let map_file = fst pair; ped_file = snd pair;
          prefix = drop_last4 map_file;
          (md, s1) = load_map_file e map_file s;
          s2 = (if md \<noteq> [] then s1\<lparr> map_data := DAList.update prefix md (map_data s1) \<rparr>
                else s1) in
      if md \<noteq> [] then
        (let (pd, s3) = load_ped_file e ped_file (length md) s2 in
         if pd \<noteq> [] then s3\<lparr> ped_data := DAList.update prefix pd (ped_data s3) \<rparr>
         else s3)
      else s2)"

fun load_pairs :: "env \<Rightarrow> (string \<times> string) list \<Rightarrow> splitter \<Rightarrow> splitter" where
  "load_pairs e [] s = s"
| "load_pairs e (pair # rest) s = load_pairs e rest (load_pair e pair s)"

section \<open>Consistency validator\<close>

fun same_snp_order :: "string list option \<Rightarrow> (string \<times> marker list) list \<Rightarrow> bool" where
  "same_snp_order first_snps [] = True"
| "same_snp_order first_snps ((prefix, data) # rest) =
     (let current_snps = map fst data in
      case first_snps of
        None \<Rightarrow> same_snp_order (Some current_snps) rest
      | Some first \<Rightarrow> if first \<noteq> current_snps then False else same_snp_order first_snps rest)"

definition validate_map_consistency :: "splitter \<Rightarrow> bool \<times> splitter" where
  "validate_map_consistency s =
     (let items = DAList.impl_of (map_data s) in
      if length items \<le> 1 then (True, s)
      else
        let snp_counts = map (\<lambda>(prefix, data). length data) items in
        if length (remdups snp_counts) > 1 then (False, fail (InconsistentSchema RowCounts) s)
        else if \<not> same_snp_order None items then (False, fail (InconsistentSchema MarkerOrder) s)
        else (True, s))"

text \<open>
  \<open>all_sample_ids\<close> is a Python \<open>set\<close>: each id is held once. It is modelled by a list
  without repetitions; the order of that list stands for the set's iteration order.
\<close>

definition all_sample_ids :: "splitter \<Rightarrow> string list" where
  "all_sample_ids s = remdups (map sample_id_of (concat (map snd (DAList.impl_of (ped_data s)))))"

fun count_ids :: "string list \<Rightarrow> (string, nat) alist \<Rightarrow> (string, nat) alist" where
  "count_ids [] counts = counts"
| "count_ids (sample_id # rest) counts =
     count_ids rest
       (DAList.update sample_id
          ((case DAList.lookup counts sample_id of None \<Rightarrow> 0 | Some c \<Rightarrow> c) + 1) counts)"

fun report_duplicates :: "(string \<times> nat) list \<Rightarrow> splitter \<Rightarrow> splitter" where
  "report_duplicates [] s = s"
| "report_duplicates ((sample_id, n) # rest) s =
     (if n > 1 then report_duplicates rest (fail (DuplicateSampleId sample_id) s)
      else report_duplicates rest s)"

fun report_missing :: "string list \<Rightarrow> splitter \<Rightarrow> splitter" where
  "report_missing [] s = s"
| "report_missing (chip_id # rest) s = report_missing rest (report (UnmappedChip chip_id) s)"

definition validate_data_integrity :: "splitter \<Rightarrow> bool \<times> splitter" where
  "validate_data_integrity s =
     (let ids = all_sample_ids s;
          sample_id_counts = count_ids ids DAList.empty;
          s1 = report_duplicates (DAList.impl_of sample_id_counts) s;
          missing_genotypes =
            filter (\<lambda>chip_id. chip_id \<notin> set ids) (map fst (DAList.impl_of (split_table s)));
          s2 = (if missing_genotypes \<noteq> []
                then (report_missing missing_genotypes s1)\<lparr> error_status := True \<rparr>
                else s1);
          s3 = (if length (DAList.impl_of (split_table s)) \<noteq> length ids
                then fail RowCountMismatch s2 else s2) in
      (\<not> error_status s3, s3))"

section \<open>Group partitioner\<close>

fun group_by_breed :: "(string \<times> string \<times> string) list
    \<Rightarrow> (string, (string \<times> string) list) alist \<Rightarrow> (string, (string \<times> string) list) alist" where
  "group_by_breed [] breed_groups = breed_groups"
| "group_by_breed ((chip_id, sample_name, breed) # rest) breed_groups =
     group_by_breed rest
       (DAList.update breed
          ((case DAList.lookup breed_groups breed of None \<Rightarrow> [] | Some l \<Rightarrow> l)
             @ [(chip_id, sample_name)])
          breed_groups)"

fun lookup_sample :: "string \<Rightarrow> (string \<times> sample list) list \<Rightarrow> sample option" where
  "lookup_sample chip_id [] = None"
| "lookup_sample chip_id ((prefix, ped) # rest) =
     (case find (\<lambda>sample_data. fst sample_data = chip_id) ped of
        Some sample_data \<Rightarrow> Some sample_data
      | None \<Rightarrow> lookup_sample chip_id rest)"

fun collect_samples :: "(string \<times> sample list) list \<Rightarrow> (string \<times> string) list
    \<Rightarrow> sample list \<times> string list \<Rightarrow> sample list \<times> string list" where
  "collect_samples pd [] acc = acc"
| "collect_samples pd ((chip_id, sample_name) # rest) (breed_ped_data, id_mapping) =
     (case lookup_sample chip_id pd of
        Some sample_data \<Rightarrow>
          collect_samples pd rest
            (breed_ped_data @ [sample_data], id_mapping @ [chip_id @ TAB # sample_name])
      | None \<Rightarrow> collect_samples pd rest (breed_ped_data, id_mapping))"

definition render_marker :: "marker \<Rightarrow> string" where
  "render_marker snp_data =
     (case snp_data of (snp_id, chromosome, position, genetic_distance) \<Rightarrow>
        chromosome @ TAB # snp_id @ TAB # genetic_distance @ TAB # position @ [LF])"

definition render_sample :: "sample \<Rightarrow> string" where
  "render_sample sample_data =
     (case sample_data of
        (sample_id, family_id, father_id, mother_id, sex, phenotype, genotypes) \<Rightarrow>
          foldl (\<lambda>line genotype. line @ TAB # genotype)
            (family_id @ TAB # sample_id @ TAB # father_id @ TAB # mother_id
               @ TAB # sex @ TAB # phenotype)
            genotypes
          @ [LF])"

text \<open>
  The content of the three files of a group: the marker lines from the template, the
  sample lines and the identifier-translation lines collected for the group.
\<close>

definition breed_files :: "marker list \<Rightarrow> (string \<times> sample list) list \<Rightarrow> (string \<times> string) list
    \<Rightarrow> group_files" where
  "breed_files template_map pd samples =
     (let (breed_ped_data, id_mapping) = collect_samples pd samples ([], []) in
      \<lparr> ped_out = map render_sample breed_ped_data,
        map_out = map render_marker template_map,
        idmap_out = map (\<lambda>mapping. mapping @ [LF]) id_mapping \<rparr>)"

text \<open>
  The body of \<open>generate_breed_files\<close> runs inside \<open>try\<close>. It raises when
  \<open>map_data\<close> is empty (the \<open>IndexError\<close> of taking the first marker table) and when
  one of the four files cannot be opened for writing: the marker file, the sample file,
  the identifier-translation file and the archive, in this order. The \<open>except\<close>
  branch then prints the failure and sets the error flag; no archive is written, and the
  files written before the failure stay in the directory. Once a file is open, writing
  it, adding it to the archive and removing it succeed.
\<close>

definition generate_breed_files :: "env \<Rightarrow> string \<Rightarrow> (string \<times> string) list \<Rightarrow> string \<Rightarrow> splitter \<Rightarrow> splitter" where
  "generate_breed_files e breed samples output_prefix s =
     (let ped_filename = output_prefix @ ''.ped'';
          map_filename = output_prefix @ ''.map'';
          idmap_filename = output_prefix @ ''.idmap.txt'';
          zip_filename = output_prefix @ ''.zip'' in
      case DAList.impl_of (map_data s) of
        [] \<Rightarrow> fail (BundleWriteFailure breed) s
      | (prefix, template_map) # others \<Rightarrow>
          let written = breed_files template_map (DAList.impl_of (ped_data s)) samples;
              map_written = (map_filename, map_out written);
              ped_written = (ped_filename, ped_out written);
              idmap_written = (idmap_filename, idmap_out written) in
          if \<not> creatable e map_filename then
            fail (BundleWriteFailure breed) s
          else if \<not> creatable e ped_filename then
            fail (BundleWriteFailure breed) (s\<lparr> loose := loose s @ [map_written] \<rparr>)
          else if \<not> creatable e idmap_filename then
            fail (BundleWriteFailure breed) (s\<lparr> loose := loose s @ [map_written, ped_written] \<rparr>)
          else if \<not> creatable e zip_filename then
            fail (BundleWriteFailure breed)
              (s\<lparr> loose := loose s @ [map_written, ped_written, idmap_written] \<rparr>)
          else
            report (BundleGenerated breed zip_filename)
              (s\<lparr> archives := archives s @ [(zip_filename, written)] \<rparr>))"

fun emit_groups :: "env \<Rightarrow> string \<Rightarrow> (string \<times> (string \<times> string) list) list \<Rightarrow> splitter \<Rightarrow> splitter" where
  "emit_groups e now_time_str [] s = s"
| "emit_groups e now_time_str ((breed, samples) # rest) s =
     (let s1 = (if length samples < 100 then report (SmallGroupWarning breed) s else s);
          output_prefix = breed @ ''_'' @ now_time_str in
      emit_groups e now_time_str rest (generate_breed_files e breed samples output_prefix s1))"

definition breed_groups :: "splitter \<Rightarrow> (string \<times> (string \<times> string) list) list" where
  "breed_groups s = DAList.impl_of (group_by_breed (DAList.impl_of (split_table s)) DAList.empty)"

definition split_by_breed :: "env \<Rightarrow> string \<Rightarrow> splitter \<Rightarrow> splitter" where
  "split_by_breed e now_time_str s =
     (if error_status s then s else emit_groups e now_time_str (breed_groups s) s)"

section \<open>The run\<close>

text \<open>
  \<open>run\<close> from the loading of the mapping table on. The operator prompts, the optional
  exclude list (which no later step reads) and the banner lines are left out; the
  time stamp of the output names is a parameter. \<open>Exit1\<close> is \<open>sys.exit(1)\<close>.
\<close>

datatype outcome = Exit1 | Returned

definition run :: "env \<Rightarrow> string \<Rightarrow> outcome \<times> splitter" where
  "run e now_time_str =
     (let s1 = load_split_table e ''split_plink.txt'' init in
      if error_status s1 then (Exit1, s1)
      else
        let (plink_files, s2) = find_plink_files e s1 in
        if error_status s2 then (Exit1, s2)
        else
          let s3 = load_pairs e plink_files s2 in
          if error_status s3 then (Exit1, s3)
          else
            let (ok4, s4) = validate_map_consistency s3 in
            if \<not> ok4 then (Exit1, s4)
            else
              let (ok5, s5) = validate_data_integrity s4 in
              if \<not> ok5 then (Exit1, s5)
              else (Returned, split_by_breed e now_time_str s5))"

section \<open>Example inputs\<close>

text \<open>
  \<open>join_tab\<close> is \<open>'\t'.join\<close>; \<open>row\<close> writes one line of a tab-separated file. They
  are used to write down the example files below and to compare what is written
  with what was read.
\<close>

fun join_tab :: "string list \<Rightarrow> string" where
  "join_tab [] = []"
| "join_tab [x] = x"
| "join_tab (x # y # ys) = x @ TAB # join_tab (y # ys)"

definition row :: "string list \<Rightarrow> string" where
  "row cols = join_tab cols @ [LF]"

text \<open>
  In the examples a file can be created when its name has no \<open>/\<close>: the working
  directory has no subdirectory.
\<close>

definition flat_name :: "string \<Rightarrow> bool" where
  "flat_name name = (CHR ''/'' \<notin> set name)"





text \<open>A pair whose marker file is empty, and one whose marker file has a single two-column line.\<close>

definition ex_env_empty_map :: env where
  "ex_env_empty_map =
     \<lparr> listing = [''a.map'', ''a.ped''],
       files = map_of [(''a.map'', []),
                       (''a.ped'', row [''F'', ''S1'', ''0'', ''0'', ''1'', ''-9'', ''A'', ''G''])],
       creatable = flat_name \<rparr>"

definition ex_env_junk_map :: env where
  "ex_env_junk_map =
     \<lparr> listing = [''a.map'', ''a.ped''],
       files = map_of [(''a.map'', row [''M1'', ''100'']),
                       (''a.ped'', row [''F'', ''S1'', ''0'', ''0'', ''1'', ''-9'', ''A'', ''G''])],
       creatable = flat_name \<rparr>"

text \<open>
  A valid batch: two pairs with the same marker, three samples, and a mapping table that
  lists the samples in another order than the sample files do. \<open>ex_valid\<close> is the
  state after loading and validating it.
\<close>

definition ex_valid_env :: env where
  "ex_valid_env =
     \<lparr> listing = [''a.map'', ''a.ped'', ''b.map'', ''b.ped'', ''split_plink.txt''],
       files = map_of
         [(''split_plink.txt'',
             row [''S3'', ''Carol'', ''BreedB''] @ row [''S2'', ''Bob'', ''BreedA'']
             @ row [''S1'', ''Alice'', ''BreedA'']),
          (''a.map'', row [''1'', ''M1'', ''0'', ''100'']),
          (''a.ped'', row [''F'', ''S1'', ''0'', ''0'', ''1'', ''-9'', ''A'', ''G'']
                    @ row [''F'', ''S2'', ''0'', ''0'', ''2'', ''-9'', ''C'', ''C'']),
          (''b.map'', row [''1'', ''M1'', ''0'', ''100'']),
          (''b.ped'', row [''G'', ''S3'', ''0'', ''0'', ''1'', ''-9'', ''T'', ''T''])],
       creatable = flat_name \<rparr>"

definition ex_valid :: splitter where
  "ex_valid = snd (validate_data_integrity
     (load_pairs ex_valid_env [(''a.map'', ''a.ped''), (''b.map'', ''b.ped'')]
        (load_split_table ex_valid_env ''split_plink.txt'' init)))"

text \<open>
  The valid batch with one more mapping entry, whose chip id no sample record has; and a
  directory whose sample file holds two records with the sample id \<open>S1\<close>.
\<close>

definition ex_unmapped :: splitter where
  "ex_unmapped = ex_valid\<lparr> split_table := DAList.update ''S9'' (''Nobody'', ''BreedA'') (split_table ex_valid) \<rparr>"

definition ex_dup_env :: env where
  "ex_dup_env =
     \<lparr> listing = [''a.map'', ''a.ped'', ''split_plink.txt''],
       files = map_of
         [(''split_plink.txt'', row [''S1'', ''Alice'', ''BreedA'']),
          (''a.map'', row [''1'', ''M1'', ''0'', ''100'']),
          (''a.ped'', row [''F'', ''S1'', ''0'', ''0'', ''1'', ''-9'', ''A'', ''G'']
                    @ row [''F'', ''S1'', ''0'', ''0'', ''2'', ''-9'', ''C'', ''C''])],
       creatable = flat_name \<rparr>"

text \<open>
  Two pairs whose marker files list the same two markers in opposite order, and the state
  after loading them.
\<close>

definition ex_transposed_env :: env where
  "ex_transposed_env =
     \<lparr> listing = [''a.map'', ''a.ped'', ''b.map'', ''b.ped'', ''split_plink.txt''],
       files = map_of
         [(''split_plink.txt'', row [''S1'', ''Alice'', ''BreedA''] @ row [''S2'', ''Bob'', ''BreedA'']),
          (''a.map'', row [''1'', ''M1'', ''0'', ''100''] @ row [''1'', ''M2'', ''0'', ''200'']),
          (''a.ped'', row [''F'', ''S1'', ''0'', ''0'', ''1'', ''-9'', ''A'', ''G'', ''C'', ''C'']),
          (''b.map'', row [''1'', ''M2'', ''0'', ''200''] @ row [''1'', ''M1'', ''0'', ''100'']),
          (''b.ped'', row [''F'', ''S2'', ''0'', ''0'', ''1'', ''-9'', ''T'', ''T'', ''A'', ''A''])],
       creatable = flat_name \<rparr>"

definition ex_transposed :: splitter where
  "ex_transposed =
     load_pairs ex_transposed_env [(''a.map'', ''a.ped''), (''b.map'', ''b.ped'')]
       (load_split_table ex_transposed_env ''split_plink.txt'' init)"


section \<open>Notions used in the proofs\<close>

text \<open>The four files of a group can all be opened for writing.\<close>

definition bundle_writable :: "env \<Rightarrow> string \<Rightarrow> bool" where
  "bundle_writable e output_prefix =
     (creatable e (output_prefix @ ''.map'') \<and> creatable e (output_prefix @ ''.ped'')
      \<and> creatable e (output_prefix @ ''.idmap.txt'') \<and> creatable e (output_prefix @ ''.zip''))"

text \<open>
  What the fail-fast gate relies on: before partitioning nothing has been written, and a
  defect in the log comes with the error flag.
\<close>

definition gate_invariant :: "splitter \<Rightarrow> bool" where
  "gate_invariant s =
     (archives s = [] \<and> loose s = [] \<and> (list_ex is_defect (printed s) \<longrightarrow> error_status s))"

text \<open>
  The state of a run after its loading loop: the mapping table and all pairs loaded, the
  early exits left aside.
\<close>

definition loaded :: "env \<Rightarrow> splitter" where
  "loaded e =
     (let s1 = load_split_table e ''split_plink.txt'' init;
          (plink_files, s2) = find_plink_files e s1 in
      load_pairs e plink_files s2)"

section \<open>The row loops of the loaders\<close>

lemma ped_rows_eq:
  "ped_rows f n k ls acc s =
     (acc @ map ped_record (filter (\<lambda>parts. length parts = n) (map (\<lambda>line. split_tab (strip line)) ls)),
      s\<lparr> error_status := error_status s \<or>
             filter (\<lambda>(line_num, line). length (split_tab (strip line)) \<noteq> n) (enumerate k ls) \<noteq> [],
         printed := printed s @ map (\<lambda>(line_num, line). MalformedRow (SampleFile f) line_num)
             (filter (\<lambda>(line_num, line). length (split_tab (strip line)) \<noteq> n) (enumerate k ls)) \<rparr>)"
  by (induction ls arbitrary: k acc s) (simp_all add: Let_def fail_def)

lemma map_rows_eq:
  "map_rows f k ls acc s =
     (acc @ map map_record (filter (\<lambda>parts. length parts = 4) (map (\<lambda>line. split_tab (strip line)) ls)),
      s\<lparr> error_status := error_status s \<or>
             filter (\<lambda>(line_num, line). length (split_tab (strip line)) \<noteq> 4) (enumerate k ls) \<noteq> [],
         printed := printed s @ map (\<lambda>(line_num, line). MalformedRow (MarkerFile f) line_num)
             (filter (\<lambda>(line_num, line). length (split_tab (strip line)) \<noteq> 4) (enumerate k ls)) \<rparr>)"
  by (induction ls arbitrary: k acc s) (simp_all add: Let_def fail_def)

section \<open>Malformed rows of a sample file\<close>



section \<open>Loading the mapping table\<close>



lemma split_table_rows_flag:
  "error_status (split_table_rows k ls s) =
     (error_status s
      \<or> filter (\<lambda>line. length (split_tab (strip line)) \<noteq> 3) ls \<noteq> []
      \<or> (\<exists>c. 0 < length (filter (\<lambda>line. length (split_tab (strip line)) = 3
                                        \<and> split_tab (strip line) ! 0 = c) ls)
                  - (if DAList.lookup (split_table s) c = None then 1 else (0::nat))))"
proof (induction ls arbitrary: k s)
  case Nil
  then show ?case by simp
next
  case (Cons line rest)
  let ?p = "split_tab (strip line)"
  show ?case
  proof (cases "length ?p \<noteq> 3")
    case True
    then show ?thesis by (simp add: Let_def Cons.IH fail_def)
  next
    case wf: False
    show ?thesis
    proof (cases "DAList.lookup (split_table s) (?p ! 0) = None")
      case True
      have "(\<exists>c. 0 < length (filter (\<lambda>line. length (split_tab (strip line)) = 3
                                        \<and> split_tab (strip line) ! 0 = c) rest)
                  - (if DAList.lookup (DAList.update (?p ! 0) (?p ! 1, ?p ! 2) (split_table s)) c = None then 1 else (0::nat)))
          = (\<exists>c. 0 < length (filter (\<lambda>line. length (split_tab (strip line)) = 3
                                        \<and> split_tab (strip line) ! 0 = c) (line # rest))
                  - (if DAList.lookup (split_table s) c = None then 1 else (0::nat)))"
        (is "(\<exists>c. ?L c) = (\<exists>c. ?R c)")
      proof -
        have "?L c = ?R c" for c
          using wf True by (cases "c = ?p ! 0") (auto simp add: DAList.lookup_update)
        then show ?thesis by simp
      qed
      then show ?thesis using wf True by (simp add: Let_def Cons.IH)
    next
      case False
      then have "\<exists>c. 0 < length (filter (\<lambda>line. length (split_tab (strip line)) = 3
                                        \<and> split_tab (strip line) ! 0 = c) (line # rest))
                  - (if DAList.lookup (split_table s) c = None then 1 else (0::nat))"
        using wf by (intro exI [of _ "?p ! 0"]) auto
      then show ?thesis using wf False by (simp add: Let_def Cons.IH fail_def)
    qed
  qed
qed






section \<open>A pair whose marker file gives no rows\<close>

lemma py_lines_empty: "py_lines content = [] \<longleftrightarrow> content = []"
  by (cases content) (auto split: list.splits)

lemma filter_enumerate_all:
  "filter P ls = [] \<Longrightarrow>
   filter (\<lambda>(line_num, line). \<not> P line) (enumerate k ls) = enumerate k ls"
  by (induction ls arbitrary: k) (auto split: if_splits)

lemma load_map_file_eq:
  "files e filename = Some content \<Longrightarrow>
   load_map_file e filename s =
     (map map_record (filter (\<lambda>parts. length parts = 4)
        (map (\<lambda>line. split_tab (strip line)) (py_lines content))),
      s\<lparr> error_status := error_status s \<or>
             filter (\<lambda>(line_num, line). length (split_tab (strip line)) \<noteq> 4)
               (enumerate 1 (py_lines content)) \<noteq> [],
         printed := printed s @ map (\<lambda>(line_num, line). MalformedRow (MarkerFile filename) line_num)
             (filter (\<lambda>(line_num, line). length (split_tab (strip line)) \<noteq> 4)
                (enumerate 1 (py_lines content))) \<rparr>)"
  by (simp add: load_map_file_def map_rows_eq)

lemma load_pair_no_rows:
  "fst (load_map_file e map_file s) = [] \<Longrightarrow>
   load_pair e (map_file, ped_file) s = snd (load_map_file e map_file s)"
  by (cases "load_map_file e map_file s") (simp add: load_pair_def Let_def)

text \<open>
  Claim C9, amended. One iteration of the loading loop, for a pair whose marker file
  exists. When the marker file is empty the iteration changes nothing: no message, no
  error flag, no entry in \<open>map_data\<close> or \<open>ped_data\<close>. Whenever the marker file
  gives no row, the sample file is not read: the resulting state is the one left by
  reading the marker file, whatever the sample file holds, and every line of the
  marker file has added its \<open>MalformedRow\<close> message.
\<close>

theorem load_pair_without_marker_rows:
  assumes "files e map_file = Some content"
  shows "(content = [] \<longrightarrow> load_pair e (map_file, ped_file) s = s)
       \<and> (fst (load_map_file e map_file s) = [] \<longrightarrow>
            load_pair e (map_file, ped_file) s =
              s\<lparr> error_status := error_status s \<or> content \<noteq> [],
                 printed := printed s @
                   map (\<lambda>(line_num, line). MalformedRow (MarkerFile map_file) line_num)
                     (enumerate 1 (py_lines content)) \<rparr>)"
proof (intro conjI impI)
  assume "content = []"
  then show "load_pair e (map_file, ped_file) s = s"
    using assms by (simp add: load_pair_def load_map_file_def)
next
  assume none: "fst (load_map_file e map_file s) = []"
  let ?ls = "py_lines content"
  from none have "filter (\<lambda>line. length (split_tab (strip line)) = 4) ?ls = []"
    by (simp add: load_map_file_eq [OF assms] filter_map comp_def)
  then have bad: "filter (\<lambda>(line_num, line). length (split_tab (strip line)) \<noteq> 4)
                    (enumerate 1 ?ls) = enumerate 1 ?ls"
    by (rule filter_enumerate_all [where P = "\<lambda>line. length (split_tab (strip line)) = 4"])
  have "enumerate 1 ?ls \<noteq> [] \<longleftrightarrow> content \<noteq> []"
    using py_lines_empty [of content] by (cases ?ls) simp_all
  then show "load_pair e (map_file, ped_file) s =
              s\<lparr> error_status := error_status s \<or> content \<noteq> [],
                 printed := printed s @
                   map (\<lambda>(line_num, line). MalformedRow (MarkerFile map_file) line_num)
                     (enumerate 1 (py_lines content)) \<rparr>"
    using bad by (simp add: load_pair_no_rows [OF none] load_map_file_eq [OF assms])
qed

theorem load_pair_without_marker_rows_witness:
  "files ex_env_empty_map ''a.map'' = Some []
   \<and> load_pair ex_env_empty_map (''a.map'', ''a.ped'') init = init
   \<and> files ex_env_junk_map ''a.map'' = Some (row [''M1'', ''100''])
   \<and> fst (load_map_file ex_env_junk_map ''a.map'' init) = []
   \<and> load_pair ex_env_junk_map (''a.map'', ''a.ped'') init =
       init\<lparr> error_status := True, printed := [MalformedRow (MarkerFile ''a.map'') 1] \<rparr>"
proof -
  have a: "files ex_env_empty_map ''a.map'' = Some []"
    and b: "files ex_env_junk_map ''a.map'' = Some (row [''M1'', ''100''])"
    by (simp_all add: ex_env_empty_map_def ex_env_junk_map_def)
  have c: "fst (load_map_file ex_env_junk_map ''a.map'' init) = []"
    by (simp add: load_map_file_eq [OF b] row_def strip_def isspace_def)
  have 1: "load_pair ex_env_empty_map (''a.map'', ''a.ped'') init = init"
    using load_pair_without_marker_rows [OF a, where ped_file = "''a.ped''" and s = init] by simp
  have 2: "load_pair ex_env_junk_map (''a.map'', ''a.ped'') init =
       init\<lparr> error_status := True, printed := [MalformedRow (MarkerFile ''a.map'') 1] \<rparr>"
    using load_pair_without_marker_rows [OF b, where ped_file = "''a.ped''" and s = init] c
    by (simp add: row_def init_def)
  show ?thesis using a b c 1 2 by simp
qed

text \<open>
  The claim as first stated fails for a marker file that has lines but none with four
  columns: it gives no row, yet a defect is recorded and the error flag is set.
\<close>

theorem load_pair_unparseable_marker_rows_counterexample:
  "fst (load_map_file ex_env_junk_map ''a.map'' init) = []
   \<and> printed (load_pair ex_env_junk_map (''a.map'', ''a.ped'') init)
       = [MalformedRow (MarkerFile ''a.map'') 1]
   \<and> is_defect (MalformedRow (MarkerFile ''a.map'') 1)
   \<and> error_status (load_pair ex_env_junk_map (''a.map'', ''a.ped'') init)"
  by (simp add: load_pair_def load_map_file_def ex_env_junk_map_def row_def strip_def
        isspace_def fail_def init_def Let_def)

section \<open>The files written for a group\<close>

lemma lookup_sample_find:
  "lookup_sample chip_id pd = find (\<lambda>sample_data. fst sample_data = chip_id) (concat (map snd pd))"
proof (induction pd)
  case Nil
  then show ?case by simp
next
  case (Cons a pd)
  obtain prefix ped where a: "a = (prefix, ped)" by (cases a)
  have app: "find P (xs @ ys) = (case find P xs of Some x \<Rightarrow> Some x | None \<Rightarrow> find P ys)"
    for P and xs ys :: "sample list"
    by (induction xs) auto
  show ?case by (simp add: a Cons.IH app split: option.splits)
qed

lemma lookup_sample_id:
  "lookup_sample chip_id pd = Some sample_data \<Longrightarrow> fst sample_data = chip_id"
  by (auto simp add: lookup_sample_find find_Some_iff)

lemma lookup_sample_mem:
  "lookup_sample chip_id pd = Some sample_data \<Longrightarrow> sample_data \<in> set (concat (map snd pd))"
  unfolding lookup_sample_find find_Some_iff by (metis nth_mem)

lemma lookup_sample_None:
  "lookup_sample chip_id pd = None \<longleftrightarrow> chip_id \<notin> fst ` set (concat (map snd pd))"
  unfolding lookup_sample_find find_None_iff by force

lemma collect_samples_eq:
  "collect_samples pd samples (rows, ids) =
     (rows @ map (\<lambda>(chip_id, sample_name). the (lookup_sample chip_id pd))
               (filter (\<lambda>(chip_id, sample_name). lookup_sample chip_id pd \<noteq> None) samples),
      ids @ map (\<lambda>(chip_id, sample_name). chip_id @ TAB # sample_name)
               (filter (\<lambda>(chip_id, sample_name). lookup_sample chip_id pd \<noteq> None) samples))"
  by (induction samples arbitrary: rows ids) (auto split: option.splits)

lemma breed_files_eq:
  "breed_files template_map pd samples =
     \<lparr> ped_out = map (\<lambda>(chip_id, sample_name). render_sample (the (lookup_sample chip_id pd)))
                   (filter (\<lambda>(chip_id, sample_name). lookup_sample chip_id pd \<noteq> None) samples),
       map_out = map render_marker template_map,
       idmap_out = map (\<lambda>(chip_id, sample_name). chip_id @ TAB # sample_name @ [LF])
                   (filter (\<lambda>(chip_id, sample_name). lookup_sample chip_id pd \<noteq> None) samples) \<rparr>"
  by (simp add: breed_files_def collect_samples_eq comp_def case_prod_unfold)

lemma generate_breed_files_fields:
  assumes "DAList.impl_of (map_data s) = (prefix, template_map) # others"
  shows "archives (generate_breed_files e breed samples output_prefix s) =
           archives s @
             (if bundle_writable e output_prefix
              then [(output_prefix @ ''.zip'',
                     breed_files template_map (DAList.impl_of (ped_data s)) samples)]
              else [])"
    and "printed (generate_breed_files e breed samples output_prefix s) =
           printed s @
             [if bundle_writable e output_prefix
              then BundleGenerated breed (output_prefix @ ''.zip'')
              else BundleWriteFailure breed]"
    and "error_status (generate_breed_files e breed samples output_prefix s) =
           (error_status s \<or> \<not> bundle_writable e output_prefix)"
    and "map_data (generate_breed_files e breed samples output_prefix s) = map_data s"
    and "ped_data (generate_breed_files e breed samples output_prefix s) = ped_data s"
    and "bundle_writable e output_prefix \<Longrightarrow>
           loose (generate_breed_files e breed samples output_prefix s) = loose s"
  using assms
  by (simp_all add: generate_breed_files_def bundle_writable_def report_def fail_def Let_def)

lemma generate_breed_files_loose:
  "\<exists>k. loose (generate_breed_files e breed samples output_prefix s) =
         loose s @ take k
           [(output_prefix @ ''.map'',
               map_out (breed_files (snd (hd (DAList.impl_of (map_data s))))
                          (DAList.impl_of (ped_data s)) samples)),
            (output_prefix @ ''.ped'',
               ped_out (breed_files (snd (hd (DAList.impl_of (map_data s))))
                          (DAList.impl_of (ped_data s)) samples)),
            (output_prefix @ ''.idmap.txt'',
               idmap_out (breed_files (snd (hd (DAList.impl_of (map_data s))))
                            (DAList.impl_of (ped_data s)) samples))]"
proof (cases "DAList.impl_of (map_data s)")
  case Nil
  then have "loose (generate_breed_files e breed samples output_prefix s) = loose s"
    by (simp add: generate_breed_files_def fail_def)
  then show ?thesis
    by (intro exI [of _ 0]) simp
next
  case (Cons a others)
  obtain prefix template_map where a: "a = (prefix, template_map)" by (cases a)
  let ?w = "breed_files template_map (DAList.impl_of (ped_data s)) samples"
  let ?l = "[(output_prefix @ ''.map'', map_out ?w), (output_prefix @ ''.ped'', ped_out ?w),
             (output_prefix @ ''.idmap.txt'', idmap_out ?w)]"
  have "loose (generate_breed_files e breed samples output_prefix s) = loose s @ take 0 ?l
      \<or> loose (generate_breed_files e breed samples output_prefix s) = loose s @ take 1 ?l
      \<or> loose (generate_breed_files e breed samples output_prefix s) = loose s @ take 2 ?l
      \<or> loose (generate_breed_files e breed samples output_prefix s) = loose s @ take 3 ?l"
    by (simp add: generate_breed_files_def Cons a report_def fail_def Let_def)
  moreover have "snd (hd (DAList.impl_of (map_data s))) = template_map"
    by (simp add: Cons a)
  ultimately show ?thesis
    by (simp only:) blast
qed

lemma generate_breed_files_failed:
  assumes "\<not> (DAList.impl_of (map_data s) \<noteq> [] \<and> bundle_writable e output_prefix)"
  shows "archives (generate_breed_files e breed samples output_prefix s) = archives s"
    and "printed (generate_breed_files e breed samples output_prefix s) =
           printed s @ [BundleWriteFailure breed]"
    and "error_status (generate_breed_files e breed samples output_prefix s)"
proof -
  show "archives (generate_breed_files e breed samples output_prefix s) = archives s"
    using assms generate_breed_files_fields(1) [of s _ _ _ e breed samples output_prefix]
    by (cases "DAList.impl_of (map_data s)") (auto simp add: generate_breed_files_def fail_def)
  show "printed (generate_breed_files e breed samples output_prefix s) =
           printed s @ [BundleWriteFailure breed]"
    using assms generate_breed_files_fields(2) [of s _ _ _ e breed samples output_prefix]
    by (cases "DAList.impl_of (map_data s)") (auto simp add: generate_breed_files_def fail_def)
  show "error_status (generate_breed_files e breed samples output_prefix s)"
    using assms generate_breed_files_fields(3) [of s _ _ _ e breed samples output_prefix]
    by (cases "DAList.impl_of (map_data s)") (auto simp add: generate_breed_files_def fail_def)
qed

lemma emit_groups_fields:
  assumes "DAList.impl_of (map_data s) = (prefix, template_map) # others"
  shows "archives (emit_groups e now groups s) =
           archives s @
             map (\<lambda>(breed, samples).
                    (breed @ ''_'' @ now @ ''.zip'',
                     breed_files template_map (DAList.impl_of (ped_data s)) samples))
               (filter (\<lambda>(breed, samples). bundle_writable e (breed @ ''_'' @ now)) groups)
         \<and> printed (emit_groups e now groups s) =
           printed s @
             concat (map (\<lambda>(breed, samples).
                       (if length samples < 100 then [SmallGroupWarning breed] else [])
                       @ [if bundle_writable e (breed @ ''_'' @ now)
                          then BundleGenerated breed (breed @ ''_'' @ now @ ''.zip'')
                          else BundleWriteFailure breed]) groups)
         \<and> error_status (emit_groups e now groups s) =
             (error_status s
              \<or> filter (\<lambda>(breed, samples). \<not> bundle_writable e (breed @ ''_'' @ now)) groups \<noteq> [])"
  using assms
proof (induction groups arbitrary: s)
  case Nil
  then show ?case by simp
next
  case (Cons g groups)
  obtain breed samples where g: "g = (breed, samples)" by (cases g)
  define s1 where "s1 = (if length samples < 100 then report (SmallGroupWarning breed) s else s)"
  define s2 where "s2 = generate_breed_files e breed samples (breed @ ''_'' @ now) s1"
  have m1: "DAList.impl_of (map_data s1) = (prefix, template_map) # others"
    using Cons.prems by (simp add: s1_def report_def)
  have f1: "archives s1 = archives s" "ped_data s1 = ped_data s" "error_status s1 = error_status s"
      "printed s1 = printed s @ (if length samples < 100 then [SmallGroupWarning breed] else [])"
    by (simp_all add: s1_def report_def)
  note f2 = generate_breed_files_fields(1-5)
      [OF m1, where e = e and breed = breed and samples = samples
         and output_prefix = "breed @ ''_'' @ now", folded s2_def]
  have m2: "DAList.impl_of (map_data s2) = (prefix, template_map) # others"
    using m1 by (simp add: f2(4))
  have step: "emit_groups e now (g # groups) s = emit_groups e now groups s2"
    by (simp add: g Let_def s1_def s2_def)
  show ?case
    unfolding step using Cons.IH [OF m2]
    by (simp add: g f2(1,2,3,5) f1)
qed

lemma split_by_breed_fields:
  assumes "\<not> error_status s" and "DAList.impl_of (map_data s) \<noteq> []"
  shows "archives (split_by_breed e now s) =
           archives s @
             map (\<lambda>(breed, samples).
                    (breed @ ''_'' @ now @ ''.zip'',
                     breed_files (snd (hd (DAList.impl_of (map_data s))))
                       (DAList.impl_of (ped_data s)) samples))
               (filter (\<lambda>(breed, samples). bundle_writable e (breed @ ''_'' @ now))
                  (breed_groups s))"
    and "printed (split_by_breed e now s) =
           printed s @
             concat (map (\<lambda>(breed, samples).
                       (if length samples < 100 then [SmallGroupWarning breed] else [])
                       @ [if bundle_writable e (breed @ ''_'' @ now)
                          then BundleGenerated breed (breed @ ''_'' @ now @ ''.zip'')
                          else BundleWriteFailure breed]) (breed_groups s))"
    and "error_status (split_by_breed e now s) =
           (filter (\<lambda>(breed, samples). \<not> bundle_writable e (breed @ ''_'' @ now))
              (breed_groups s) \<noteq> [])"
proof -
  obtain prefix template_map others
    where m: "DAList.impl_of (map_data s) = (prefix, template_map) # others"
    using assms(2) by (cases "DAList.impl_of (map_data s)") auto
  note f = emit_groups_fields [OF m, of e now "breed_groups s"]
  show "archives (split_by_breed e now s) =
           archives s @
             map (\<lambda>(breed, samples).
                    (breed @ ''_'' @ now @ ''.zip'',
                     breed_files (snd (hd (DAList.impl_of (map_data s))))
                       (DAList.impl_of (ped_data s)) samples))
               (filter (\<lambda>(breed, samples). bundle_writable e (breed @ ''_'' @ now))
                  (breed_groups s))"
    using assms(1) f by (simp add: split_by_breed_def m)
  show "printed (split_by_breed e now s) =
           printed s @
             concat (map (\<lambda>(breed, samples).
                       (if length samples < 100 then [SmallGroupWarning breed] else [])
                       @ [if bundle_writable e (breed @ ''_'' @ now)
                          then BundleGenerated breed (breed @ ''_'' @ now @ ''.zip'')
                          else BundleWriteFailure breed]) (breed_groups s))"
    using assms(1) f by (simp add: split_by_breed_def)
  show "error_status (split_by_breed e now s) =
           (filter (\<lambda>(breed, samples). \<not> bundle_writable e (breed @ ''_'' @ now))
              (breed_groups s) \<noteq> [])"
    using assms(1) f by (simp add: split_by_breed_def)
qed

lemma ex_valid_eq:
  "ex_valid =
     \<lparr> error_status = False,
       map_data = DAList.update ''b'' [(''M1'', ''1'', ''100'', ''0'')]
                    (DAList.update ''a'' [(''M1'', ''1'', ''100'', ''0'')] DAList.empty),
       ped_data = DAList.update ''b'' [(''S3'', ''G'', ''0'', ''0'', ''1'', ''-9'', [''T'', ''T''])]
                    (DAList.update ''a'' [(''S1'', ''F'', ''0'', ''0'', ''1'', ''-9'', [''A'', ''G'']),
                                          (''S2'', ''F'', ''0'', ''0'', ''2'', ''-9'', [''C'', ''C''])]
                       DAList.empty),
       split_table = DAList.update ''S1'' (''Alice'', ''BreedA'')
                       (DAList.update ''S2'' (''Bob'', ''BreedA'')
                          (DAList.update ''S3'' (''Carol'', ''BreedB'') DAList.empty)),
       printed = [LoadedMappings 3],
       archives = [],
       loose = [] \<rparr>"
  by (simp add: ex_valid_def ex_valid_env_def row_def init_def load_split_table_def strip_def isspace_def
        fail_def report_def Let_def load_pair_def load_map_file_def load_ped_file_def drop_last4_def
        map_record_def ped_record_def validate_data_integrity_def all_sample_ids_def
        DAList.lookup.rep_eq DAList.update.rep_eq DAList.empty.rep_eq)


lemma ex_valid_fields:
  "DAList.impl_of (map_data ex_valid) =
     [(''a'', [(''M1'', ''1'', ''100'', ''0'')]), (''b'', [(''M1'', ''1'', ''100'', ''0'')])]"
  "DAList.impl_of (ped_data ex_valid) =
     [(''a'', [(''S1'', ''F'', ''0'', ''0'', ''1'', ''-9'', [''A'', ''G'']),
               (''S2'', ''F'', ''0'', ''0'', ''2'', ''-9'', [''C'', ''C''])]),
      (''b'', [(''S3'', ''G'', ''0'', ''0'', ''1'', ''-9'', [''T'', ''T''])])]"
  "DAList.impl_of (split_table ex_valid) =
     [(''S3'', ''Carol'', ''BreedB''), (''S2'', ''Bob'', ''BreedA''), (''S1'', ''Alice'', ''BreedA'')]"
  "error_status ex_valid = False"
  "printed ex_valid = [LoadedMappings 3]"
  "archives ex_valid = []"
  "loose ex_valid = []"
  by (simp_all add: ex_valid_eq DAList.update.rep_eq DAList.empty.rep_eq)

text \<open>
  Claim C10. Output generation for one group. The entries of the group whose chip id is
  the sample id of a loaded record are kept, in order; the sample file holds the rendered
  record found for each kept entry and the identifier-translation file the line
  \<open>chip_id TAB sample_name\<close> of each kept entry, so both have one line per kept entry
  and the sample id of the i-th record is the chip id of the i-th translation line.
  An entry that matches no record contributes to neither file. When a marker table is
  loaded and the four output files can be created, the archive of these files is
  written, the only message printed is the one announcing the archive and the error
  flag is unchanged. Otherwise the group fails: no archive is written, the failure is
  printed, the error flag is set, and the files written before the failure (a prefix of
  marker file, sample file, translation file, with the contents above) stay behind.
  In both cases the messages and the flag are the same for every list of entries, so
  an entry that matches no record never causes a message.
\<close>

theorem generate_breed_files_correspondence:
  "let pd = DAList.impl_of (ped_data s);
       kept = filter (\<lambda>(chip_id, sample_name). lookup_sample chip_id pd \<noteq> None) samples;
       rows = map (\<lambda>(chip_id, sample_name). the (lookup_sample chip_id pd)) kept;
       written = \<lparr> ped_out = map render_sample rows,
                   map_out = map render_marker (snd (hd (DAList.impl_of (map_data s)))),
                   idmap_out = map (\<lambda>(chip_id, sample_name). chip_id @ TAB # sample_name @ [LF]) kept \<rparr>;
       s' = generate_breed_files e breed samples output_prefix s in
   map sample_id_of rows = map fst kept
   \<and> set rows \<subseteq> set (concat (map snd pd))
   \<and> (DAList.impl_of (map_data s) \<noteq> [] \<and> bundle_writable e output_prefix \<longrightarrow>
        archives s' = archives s @ [(output_prefix @ ''.zip'', written)]
        \<and> loose s' = loose s
        \<and> printed s' = printed s @ [BundleGenerated breed (output_prefix @ ''.zip'')]
        \<and> error_status s' = error_status s)
   \<and> (\<not> (DAList.impl_of (map_data s) \<noteq> [] \<and> bundle_writable e output_prefix) \<longrightarrow>
        archives s' = archives s
        \<and> (\<exists>k. loose s' = loose s @ take k
               [(output_prefix @ ''.map'', map_out written),
                (output_prefix @ ''.ped'', ped_out written),
                (output_prefix @ ''.idmap.txt'', idmap_out written)])
        \<and> printed s' = printed s @ [BundleWriteFailure breed]
        \<and> error_status s')
   \<and> (\<forall>samples'. printed (generate_breed_files e breed samples' output_prefix s) = printed s'
          \<and> error_status (generate_breed_files e breed samples' output_prefix s) = error_status s')"
proof -
  define pd where "pd = DAList.impl_of (ped_data s)"
  define kept where "kept = filter (\<lambda>(chip_id, sample_name). lookup_sample chip_id pd \<noteq> None) samples"
  define rows where "rows = map (\<lambda>(chip_id, sample_name). the (lookup_sample chip_id pd)) kept"
  define written where "written =
     \<lparr> ped_out = map render_sample rows,
       map_out = map render_marker (snd (hd (DAList.impl_of (map_data s)))),
       idmap_out = map (\<lambda>(chip_id, sample_name). chip_id @ TAB # sample_name @ [LF]) kept \<rparr>"
  define s' where "s' = generate_breed_files e breed samples output_prefix s"
  have ids: "map sample_id_of rows = map fst kept"
    unfolding rows_def kept_def by (auto simp add: lookup_sample_id)
  have mem: "set rows \<subseteq> set (concat (map snd pd))"
  proof
    fix r assume "r \<in> set rows"
    then have "\<exists>p\<in>set samples. lookup_sample (fst p) pd \<noteq> None
                 \<and> r = the (lookup_sample (fst p) pd)"
      unfolding rows_def kept_def by (force simp add: case_prod_unfold)
    then obtain p :: "string \<times> string" where "lookup_sample (fst p) pd \<noteq> None" "r = the (lookup_sample (fst p) pd)"
      by blast
    then have "lookup_sample (fst p) pd = Some r" by (metis option.collapse)
    then show "r \<in> set (concat (map snd pd))" by (rule lookup_sample_mem)
  qed
  have w: "breed_files (snd (hd (DAList.impl_of (map_data s)))) (DAList.impl_of (ped_data s)) samples
             = written"
    unfolding breed_files_eq written_def rows_def kept_def pd_def
    by (simp add: comp_def case_prod_unfold)
  have ok: "archives s' = archives s @ [(output_prefix @ ''.zip'', written)]
        \<and> loose s' = loose s
        \<and> printed s' = printed s @ [BundleGenerated breed (output_prefix @ ''.zip'')]
        \<and> error_status s' = error_status s"
    if "DAList.impl_of (map_data s) \<noteq> [] \<and> bundle_writable e output_prefix"
  proof -
    from that have ne: "DAList.impl_of (map_data s) \<noteq> []" and bw: "bundle_writable e output_prefix"
      by simp_all
    obtain prefix template_map others
      where m: "DAList.impl_of (map_data s) = (prefix, template_map) # others"
      using ne by (cases "DAList.impl_of (map_data s)") auto
    have w': "breed_files template_map (DAList.impl_of (ped_data s)) samples = written"
      using w by (simp add: m)
    show ?thesis
      using bw generate_breed_files_fields
        [OF m, where e = e and breed = breed and samples = samples
           and output_prefix = output_prefix]
      by (simp add: s'_def w')
  qed
  have bad: "archives s' = archives s
        \<and> (\<exists>k. loose s' = loose s @ take k
               [(output_prefix @ ''.map'', map_out written),
                (output_prefix @ ''.ped'', ped_out written),
                (output_prefix @ ''.idmap.txt'', idmap_out written)])
        \<and> printed s' = printed s @ [BundleWriteFailure breed]
        \<and> error_status s'"
    if "\<not> (DAList.impl_of (map_data s) \<noteq> [] \<and> bundle_writable e output_prefix)"
    using generate_breed_files_failed [OF that, of breed samples]
      generate_breed_files_loose [of e breed samples output_prefix s]
    unfolding s'_def w by blast
  have same: "printed (generate_breed_files e breed samples' output_prefix s) = printed s'
          \<and> error_status (generate_breed_files e breed samples' output_prefix s) = error_status s'"
    for samples'
  proof (cases "DAList.impl_of (map_data s) \<noteq> [] \<and> bundle_writable e output_prefix")
    case True
    then have ne: "DAList.impl_of (map_data s) \<noteq> []"
      by simp
    obtain prefix template_map others
      where m: "DAList.impl_of (map_data s) = (prefix, template_map) # others"
      using ne by (cases "DAList.impl_of (map_data s)") auto
    show ?thesis
      unfolding s'_def
      by (simp add: generate_breed_files_fields(2,3) [OF m])
  next
    case False
    show ?thesis
      unfolding s'_def
      using generate_breed_files_failed(2,3) [OF False, of breed samples]
        generate_breed_files_failed(2,3) [OF False, of breed samples']
      by simp
  qed
  show ?thesis
    using ids mem ok bad same
    unfolding Let_def pd_def [symmetric] kept_def [symmetric] rows_def [symmetric]
      written_def [symmetric] s'_def [symmetric]
    by blast
qed

theorem generate_breed_files_correspondence_witness:
  "(DAList.impl_of (map_data ex_valid) \<noteq> [] \<and> bundle_writable ex_valid_env ''BreedA_T'')
   \<and> archives (generate_breed_files ex_valid_env ''BreedA''
        [(''S2'', ''Bob''), (''S7'', ''Ghost''), (''S1'', ''Alice'')] ''BreedA_T'' ex_valid) =
       [(''BreedA_T.zip'',
         \<lparr> ped_out = [row [''F'', ''S2'', ''0'', ''0'', ''2'', ''-9'', ''C'', ''C''],
                      row [''F'', ''S1'', ''0'', ''0'', ''1'', ''-9'', ''A'', ''G'']],
           map_out = [row [''1'', ''M1'', ''0'', ''100'']],
           idmap_out = [row [''S2'', ''Bob''], row [''S1'', ''Alice'']] \<rparr>)]
   \<and> loose (generate_breed_files ex_valid_env ''BreedA''
        [(''S2'', ''Bob''), (''S7'', ''Ghost''), (''S1'', ''Alice'')] ''BreedA_T'' ex_valid) = []
   \<and> printed (generate_breed_files ex_valid_env ''BreedA''
        [(''S2'', ''Bob''), (''S7'', ''Ghost''), (''S1'', ''Alice'')] ''BreedA_T'' ex_valid) =
       [LoadedMappings 3, BundleGenerated ''BreedA'' ''BreedA_T.zip'']
   \<and> error_status (generate_breed_files ex_valid_env ''BreedA''
        [(''S2'', ''Bob''), (''S7'', ''Ghost''), (''S1'', ''Alice'')] ''BreedA_T'' ex_valid) = False
   \<and> \<not> (DAList.impl_of (map_data ex_valid) \<noteq> [] \<and> bundle_writable ex_valid_env ''A/B_T'')
   \<and> archives (generate_breed_files ex_valid_env ''A/B'' [(''S1'', ''Alice'')] ''A/B_T'' ex_valid) = []
   \<and> printed (generate_breed_files ex_valid_env ''A/B'' [(''S1'', ''Alice'')] ''A/B_T'' ex_valid) =
       [LoadedMappings 3, BundleWriteFailure ''A/B'']
   \<and> error_status (generate_breed_files ex_valid_env ''A/B'' [(''S1'', ''Alice'')] ''A/B_T'' ex_valid)"
proof -
  have w: "bundle_writable ex_valid_env ''BreedA_T''" "\<not> bundle_writable ex_valid_env ''A/B_T''"
    by (simp_all add: bundle_writable_def ex_valid_env_def flat_name_def)
  have a: "archives (generate_breed_files ex_valid_env ''A/B'' [(''S1'', ''Alice'')] ''A/B_T'' ex_valid) = []
   \<and> printed (generate_breed_files ex_valid_env ''A/B'' [(''S1'', ''Alice'')] ''A/B_T'' ex_valid) =
       [LoadedMappings 3, BundleWriteFailure ''A/B'']
   \<and> error_status (generate_breed_files ex_valid_env ''A/B'' [(''S1'', ''Alice'')] ''A/B_T'' ex_valid)"
    using generate_breed_files_correspondence
      [of ex_valid "[(''S1'', ''Alice'')]" ex_valid_env "''A/B''" "''A/B_T''"] w(2)
    unfolding Let_def by (simp add: ex_valid_fields)
  have b: "archives (generate_breed_files ex_valid_env ''BreedA''
        [(''S2'', ''Bob''), (''S7'', ''Ghost''), (''S1'', ''Alice'')] ''BreedA_T'' ex_valid) =
       [(''BreedA_T.zip'',
         \<lparr> ped_out = [row [''F'', ''S2'', ''0'', ''0'', ''2'', ''-9'', ''C'', ''C''],
                      row [''F'', ''S1'', ''0'', ''0'', ''1'', ''-9'', ''A'', ''G'']],
           map_out = [row [''1'', ''M1'', ''0'', ''100'']],
           idmap_out = [row [''S2'', ''Bob''], row [''S1'', ''Alice'']] \<rparr>)]
   \<and> loose (generate_breed_files ex_valid_env ''BreedA''
        [(''S2'', ''Bob''), (''S7'', ''Ghost''), (''S1'', ''Alice'')] ''BreedA_T'' ex_valid) = []
   \<and> printed (generate_breed_files ex_valid_env ''BreedA''
        [(''S2'', ''Bob''), (''S7'', ''Ghost''), (''S1'', ''Alice'')] ''BreedA_T'' ex_valid) =
       [LoadedMappings 3, BundleGenerated ''BreedA'' ''BreedA_T.zip'']
   \<and> error_status (generate_breed_files ex_valid_env ''BreedA''
        [(''S2'', ''Bob''), (''S7'', ''Ghost''), (''S1'', ''Alice'')] ''BreedA_T'' ex_valid) = False"
    using generate_breed_files_correspondence
      [of ex_valid "[(''S2'', ''Bob''), (''S7'', ''Ghost''), (''S1'', ''Alice'')]" ex_valid_env
          "''BreedA''" "''BreedA_T''"] w(1)
    unfolding Let_def
    by (simp add: ex_valid_fields row_def render_sample_def render_marker_def)
  show ?thesis
    using a b w by (simp add: ex_valid_fields)
qed

section \<open>Referential integrity\<close>

subsection \<open>Counting the sample ids\<close>

lemma count_ids_lookup:
  "DAList.lookup (count_ids ids counts) k =
     (case DAList.lookup counts k of
        None \<Rightarrow> if count_list ids k = 0 then None else Some (count_list ids k)
      | Some c \<Rightarrow> Some (c + count_list ids k))"
  by (induction ids arbitrary: counts) (auto simp add: DAList.lookup_update split: option.splits)

lemma distinct_count_list:
  "distinct xs \<Longrightarrow> count_list xs x = (if x \<in> set xs then 1 else 0)"
  by (induction xs) auto

lemma count_ids_at_most_one:
  assumes "distinct ids" and "(k, n) \<in> set (DAList.impl_of (count_ids ids DAList.empty))"
  shows "n = 1"
proof -
  have "DAList.lookup (count_ids ids DAList.empty) k = Some n"
    using assms(2) by (simp add: DAList.lookup.rep_eq)
  then show ?thesis
    using assms(1) by (simp add: count_ids_lookup distinct_count_list split: if_splits)
qed

lemma report_duplicates_none:
  "(\<And>k n. (k, n) \<in> set al \<Longrightarrow> n = 1) \<Longrightarrow> report_duplicates al s = s"
proof (induction al arbitrary: s)
  case Nil
  then show ?case by simp
next
  case (Cons a al)
  obtain k n where a: "a = (k, n)" by (cases a)
  have "n = 1" using Cons.prems [of k n] by (simp add: a)
  moreover have "report_duplicates al s = s"
  proof (rule Cons.IH)
    fix k' n' assume "(k', n') \<in> set al"
    then show "n' = 1" using Cons.prems [of k' n'] by simp
  qed
  ultimately show ?case by (simp add: a)
qed

lemma report_missing_eq:
  "report_missing chips s = s\<lparr> printed := printed s @ map UnmappedChip chips \<rparr>"
  by (induction chips arbitrary: s) (simp_all add: report_def)

lemma validate_data_integrity_eq:
  "validate_data_integrity s =
     (let ids = all_sample_ids s;
          chips = map fst (DAList.impl_of (split_table s));
          missing = filter (\<lambda>chip_id. chip_id \<notin> set ids) chips;
          e = (error_status s \<or> missing \<noteq> [] \<or> length chips \<noteq> length ids) in
      (\<not> e,
       s\<lparr> error_status := e,
          printed := printed s @ map UnmappedChip missing
                     @ (if length chips \<noteq> length ids then [RowCountMismatch] else []) \<rparr>))"
proof -
  have d: "distinct (all_sample_ids s)"
    by (simp add: all_sample_ids_def)
  have "report_duplicates (DAList.impl_of (count_ids (all_sample_ids s) DAList.empty)) s = s"
    by (rule report_duplicates_none) (rule count_ids_at_most_one [OF d])
  then show ?thesis
    by (simp add: validate_data_integrity_def Let_def report_missing_eq fail_def)
qed


text \<open>
  Claim C6. The integrity check adds exactly one \<open>UnmappedChip\<close> message for each chip
  id of the mapping table that is the sample id of no loaded sample record, and none for
  any other id; so when every chip id has a matching record no such message is added.
  A missing id sets the error flag and makes the check fail.
\<close>

theorem unmapped_chip_defects:
  "let s' = snd (validate_data_integrity s);
       chips = map fst (DAList.impl_of (split_table s));
       sample_ids = set (map sample_id_of (concat (map snd (DAList.impl_of (ped_data s))))) in
   (\<forall>c. count_list (printed s') (UnmappedChip c) =
          count_list (printed s) (UnmappedChip c)
          + (if c \<in> set chips \<and> c \<notin> sample_ids then 1 else 0))
   \<and> (filter (\<lambda>c. c \<notin> sample_ids) chips \<noteq> [] \<longrightarrow>
        error_status s' \<and> \<not> fst (validate_data_integrity s))"
proof -
  define chips where "chips = map fst (DAList.impl_of (split_table s))"
  define sample_ids where
    "sample_ids = set (map sample_id_of (concat (map snd (DAList.impl_of (ped_data s)))))"
  have ids: "set (all_sample_ids s) = sample_ids"
    by (simp add: all_sample_ids_def sample_ids_def)
  have d: "distinct chips"
    by (simp add: chips_def)
  have inj: "count_list (map UnmappedChip xs) (UnmappedChip c) = count_list xs c" for xs c
    by (induction xs) auto
  have cnt: "count_list (filter (\<lambda>c. c \<notin> sample_ids) chips) c =
               (if c \<in> set chips \<and> c \<notin> sample_ids then 1 else 0)" for c
    using d by (simp add: distinct_count_list)
  have 1: "count_list (printed (snd (validate_data_integrity s))) (UnmappedChip c) =
          count_list (printed s) (UnmappedChip c)
          + (if c \<in> set chips \<and> c \<notin> sample_ids then 1 else 0)" for c
    by (simp add: validate_data_integrity_eq Let_def ids inj cnt flip: chips_def)
  have 2: "error_status (snd (validate_data_integrity s)) \<and> \<not> fst (validate_data_integrity s)"
    if "filter (\<lambda>c. c \<notin> sample_ids) chips \<noteq> []"
    using that by (simp add: validate_data_integrity_eq Let_def ids flip: chips_def)
  show ?thesis
    unfolding Let_def chips_def [symmetric] sample_ids_def [symmetric] using 1 2 by blast
qed

theorem unmapped_chip_defects_witness:
  "count_list (printed (snd (validate_data_integrity ex_unmapped))) (UnmappedChip ''S9'') = 1
   \<and> count_list (printed (snd (validate_data_integrity ex_unmapped))) (UnmappedChip ''S1'') = 0
   \<and> error_status (snd (validate_data_integrity ex_unmapped))
   \<and> \<not> fst (validate_data_integrity ex_unmapped)
   \<and> (\<forall>c. count_list (printed (snd (validate_data_integrity ex_valid))) (UnmappedChip c) = 0)"
proof -
  have u: "DAList.impl_of (split_table ex_unmapped) =
             [(''S3'', ''Carol'', ''BreedB''), (''S2'', ''Bob'', ''BreedA''),
              (''S1'', ''Alice'', ''BreedA''), (''S9'', ''Nobody'', ''BreedA'')]"
          "DAList.impl_of (ped_data ex_unmapped) = DAList.impl_of (ped_data ex_valid)"
          "printed ex_unmapped = [LoadedMappings 3]"
    by (simp_all add: ex_unmapped_def ex_valid_fields DAList.update.rep_eq)
  have a: "count_list (printed (snd (validate_data_integrity ex_unmapped))) (UnmappedChip ''S9'') = 1
   \<and> count_list (printed (snd (validate_data_integrity ex_unmapped))) (UnmappedChip ''S1'') = 0
   \<and> error_status (snd (validate_data_integrity ex_unmapped))
   \<and> \<not> fst (validate_data_integrity ex_unmapped)"
    using unmapped_chip_defects [of ex_unmapped]
    by (simp add: Let_def u ex_valid_fields)
  have b: "\<forall>c. count_list (printed (snd (validate_data_integrity ex_valid))) (UnmappedChip c) = 0"
    using unmapped_chip_defects [of ex_valid]
    by (auto simp add: Let_def ex_valid_fields)
  show ?thesis using a b by simp
qed

text \<open>
  The sample ids are counted after they have been put into a set, so every count is 1:
  the integrity check never prints a \<open>DuplicateSampleId\<close> message.
\<close>

lemma validate_data_integrity_reports_no_duplicate:
  "count_list (printed (snd (validate_data_integrity s))) (DuplicateSampleId c) =
     count_list (printed s) (DuplicateSampleId c)"
proof -
  have "count_list (map UnmappedChip xs) (DuplicateSampleId c) = 0" for xs
    by (induction xs) auto
  then show ?thesis
    by (simp add: validate_data_integrity_eq Let_def)
qed

text \<open>
  Claim C1, at a failing input. The sample file holds two records with the sample id
  \<open>S1\<close> and the mapping table one entry for \<open>S1\<close>. Both records are loaded, no
  \<open>DuplicateSampleId\<close> message is printed, the error flag stays clear, the run goes on
  to partitioning and writes an archive that holds the first of the two records only.
\<close>

theorem duplicate_sample_id_not_detected:
  "fst (run ex_dup_env ''T'') = Returned
   \<and> error_status (snd (run ex_dup_env ''T'')) = False
   \<and> printed (snd (run ex_dup_env ''T'')) =
       [LoadedMappings 1, SmallGroupWarning ''BreedA'', BundleGenerated ''BreedA'' ''BreedA_T.zip'']
   \<and> DAList.impl_of (ped_data (snd (run ex_dup_env ''T''))) =
       [(''a'', [(''S1'', ''F'', ''0'', ''0'', ''1'', ''-9'', [''A'', ''G'']),
                 (''S1'', ''F'', ''0'', ''0'', ''2'', ''-9'', [''C'', ''C''])])]
   \<and> archives (snd (run ex_dup_env ''T'')) =
       [(''BreedA_T.zip'',
         \<lparr> ped_out = [row [''F'', ''S1'', ''0'', ''0'', ''1'', ''-9'', ''A'', ''G'']],
           map_out = [row [''1'', ''M1'', ''0'', ''100'']],
           idmap_out = [row [''S1'', ''Alice'']] \<rparr>)]"
  by (simp add: run_def ex_dup_env_def row_def init_def load_split_table_def strip_def isspace_def
        fail_def report_def Let_def find_plink_files_def endswith_def drop_last4_def exists_def
        load_pair_def load_map_file_def load_ped_file_def map_record_def ped_record_def
        validate_map_consistency_def validate_data_integrity_def all_sample_ids_def
        split_by_breed_def breed_groups_def generate_breed_files_def breed_files_def
        render_sample_def render_marker_def flat_name_def
        DAList.lookup.rep_eq DAList.update.rep_eq DAList.empty.rep_eq)

section \<open>The fail-fast gate\<close>

lemma gate_invariant_init: "gate_invariant init"
  by (simp add: gate_invariant_def init_def)

lemma gate_invariant_fail: "gate_invariant s \<Longrightarrow> gate_invariant (fail m s)"
  by (simp add: gate_invariant_def fail_def)

lemma gate_invariant_report:
  "\<not> is_defect m \<Longrightarrow> gate_invariant s \<Longrightarrow> gate_invariant (report m s)"
  by (simp add: gate_invariant_def report_def)

lemma gate_invariant_tables:
  "gate_invariant (s\<lparr> split_table := t \<rparr>) = gate_invariant s"
  "gate_invariant (s\<lparr> map_data := m \<rparr>) = gate_invariant s"
  "gate_invariant (s\<lparr> ped_data := p \<rparr>) = gate_invariant s"
  by (simp_all add: gate_invariant_def)

lemma gate_invariant_rows:
  "gate_invariant s \<Longrightarrow>
   gate_invariant (s\<lparr> error_status := error_status s \<or> bad \<noteq> [],
                      printed := printed s @ map f bad \<rparr>)"
  by (cases bad) (auto simp add: gate_invariant_def list_ex_iff)

lemma gate_invariant_split_table_rows:
  "gate_invariant s \<Longrightarrow> gate_invariant (split_table_rows k ls s)"
  by (induction ls arbitrary: k s)
     (simp_all add: Let_def gate_invariant_fail gate_invariant_tables)

lemma gate_invariant_load_split_table:
  "gate_invariant s \<Longrightarrow> gate_invariant (load_split_table e filename s)"
  by (simp add: load_split_table_def Let_def gate_invariant_fail gate_invariant_report
        gate_invariant_split_table_rows split: option.splits)

lemma gate_invariant_scan_listing:
  "gate_invariant s \<Longrightarrow> gate_invariant (snd (scan_listing e names found s))"
  by (induction e names found s rule: scan_listing.induct)
     (simp_all add: Let_def gate_invariant_fail)

lemma gate_invariant_find_plink_files:
  "gate_invariant s \<Longrightarrow> gate_invariant (snd (find_plink_files e s))"
  using gate_invariant_scan_listing [of s e "listing e" "([], [])"]
  by (auto simp add: find_plink_files_def Let_def gate_invariant_fail split: prod.splits)

lemma gate_invariant_load_map_file:
  "gate_invariant s \<Longrightarrow> gate_invariant (snd (load_map_file e filename s))"
  by (simp add: load_map_file_def map_rows_eq gate_invariant_fail gate_invariant_rows
        split: option.splits)

lemma gate_invariant_load_ped_file:
  "gate_invariant s \<Longrightarrow> gate_invariant (snd (load_ped_file e filename n s))"
  by (simp add: load_ped_file_def Let_def ped_rows_eq gate_invariant_fail gate_invariant_rows
        split: option.splits)

lemma gate_invariant_load_pair:
  assumes "gate_invariant s"
  shows "gate_invariant (load_pair e pair s)"
proof -
  obtain md s1 where m: "load_map_file e (fst pair) s = (md, s1)"
    by (cases "load_map_file e (fst pair) s")
  have s1: "gate_invariant s1"
    using gate_invariant_load_map_file [OF assms, of e "fst pair"] by (simp add: m)
  let ?s2 = "s1\<lparr> map_data := DAList.update (drop_last4 (fst pair)) md (map_data s1) \<rparr>"
  obtain pd s3 where p: "load_ped_file e (snd pair) (length md) ?s2 = (pd, s3)"
    by (cases "load_ped_file e (snd pair) (length md) ?s2")
  have s3: "gate_invariant s3"
    using gate_invariant_load_ped_file [of ?s2 e "snd pair" "length md"] s1
    by (simp add: p gate_invariant_tables)
  show ?thesis
    using s1 s3 by (simp add: load_pair_def Let_def m p gate_invariant_tables)
qed

lemma gate_invariant_load_pairs:
  "gate_invariant s \<Longrightarrow> gate_invariant (load_pairs e pairs s)"
  by (induction pairs arbitrary: s) (simp_all add: gate_invariant_load_pair)

lemma gate_invariant_validate_map_consistency:
  "gate_invariant s \<Longrightarrow> gate_invariant (snd (validate_map_consistency s))"
  by (simp add: validate_map_consistency_def Let_def gate_invariant_fail)


lemma gate_invariant_validate_data_integrity:
  "gate_invariant s \<Longrightarrow> gate_invariant (snd (validate_data_integrity s))"
proof -
  define missing where "missing = filter (\<lambda>chip_id. chip_id \<notin> set (all_sample_ids s))
                                    (map fst (DAList.impl_of (split_table s)))"
  define mismatch where "mismatch = (length (DAList.impl_of (split_table s)) \<noteq> length (all_sample_ids s))"
  assume inv: "gate_invariant s"
  have s': "snd (validate_data_integrity s) =
     s\<lparr> error_status := error_status s \<or> missing \<noteq> [] \<or> mismatch,
        printed := printed s @ map UnmappedChip missing
                   @ (if mismatch then [RowCountMismatch] else []) \<rparr>"
    by (simp add: validate_data_integrity_eq Let_def missing_def mismatch_def)
  show ?thesis
    unfolding s' using inv
    by (cases "missing = []"; cases mismatch) (simp_all add: gate_invariant_def)
qed

lemma validate_data_integrity_flag:
  "fst (validate_data_integrity s) = (\<not> error_status (snd (validate_data_integrity s)))"
  by (simp add: validate_data_integrity_eq Let_def)

lemma run_gate:
  "fst (run e now) = Exit1
     \<longrightarrow> archives (snd (run e now)) = [] \<and> loose (snd (run e now)) = []"
proof -
  define s1 where "s1 = load_split_table e ''split_plink.txt'' init"
  define s2 where "s2 = snd (find_plink_files e s1)"
  define s3 where "s3 = load_pairs e (fst (find_plink_files e s1)) s2"
  define s4 where "s4 = snd (validate_map_consistency s3)"
  define s5 where "s5 = snd (validate_data_integrity s4)"
  have i1: "gate_invariant s1"
    unfolding s1_def by (intro gate_invariant_load_split_table gate_invariant_init)
  have i2: "gate_invariant s2"
    unfolding s2_def by (intro gate_invariant_find_plink_files i1)
  have i3: "gate_invariant s3"
    unfolding s3_def by (intro gate_invariant_load_pairs i2)
  have i4: "gate_invariant s4"
    unfolding s4_def by (intro gate_invariant_validate_map_consistency i3)
  have i5: "gate_invariant s5"
    unfolding s5_def by (intro gate_invariant_validate_data_integrity i4)
  have r: "run e now =
     (if error_status s1 then (Exit1, s1)
      else if error_status s2 then (Exit1, s2)
      else if error_status s3 then (Exit1, s3)
      else if \<not> fst (validate_map_consistency s3) then (Exit1, s4)
      else if error_status s5 then (Exit1, s5)
      else (Returned, split_by_breed e now s5))"
    by (simp add: run_def Let_def case_prod_unfold s1_def s2_def s3_def s4_def s5_def
          validate_data_integrity_flag)
  have a: "archives s1 = []" "archives s2 = []" "archives s3 = []" "archives s4 = []"
          "archives s5 = []"
          "loose s1 = []" "loose s2 = []" "loose s3 = []" "loose s4 = []" "loose s5 = []"
    using i1 i2 i3 i4 i5 by (simp_all add: gate_invariant_def)
  show ?thesis
    unfolding r using a by simp
qed


lemma same_snp_order_Some:
  "same_snp_order (Some first) items = (\<forall>(prefix, data) \<in> set items. map fst data = first)"
proof (induction items)
  case Nil
  then show ?case by simp
next
  case (Cons a items)
  obtain prefix data where a: "a = (prefix, data)" by (cases a)
  show ?case
    using Cons.IH by (cases "first = map fst data") (auto simp add: a)
qed

lemma same_snp_order_None:
  "same_snp_order None items =
     (case items of [] \<Rightarrow> True
      | (prefix, data) # rest \<Rightarrow> (\<forall>(prefix', data') \<in> set rest. map fst data' = map fst data))"
  by (cases items) (auto simp add: same_snp_order_Some)

lemma validate_map_consistency_differing:
  assumes "(p1, d1) \<in> set (DAList.impl_of (map_data s))"
      and "(p2, d2) \<in> set (DAList.impl_of (map_data s))"
      and "map fst d1 \<noteq> map fst d2"
  shows "validate_map_consistency s =
           (False, fail (InconsistentSchema
              (if length (remdups (map (\<lambda>(prefix, data). length data) (DAList.impl_of (map_data s)))) > 1
               then RowCounts else MarkerOrder)) s)"
proof -
  define items where "items = DAList.impl_of (map_data s)"
  have two: "\<not> length items \<le> 1"
  proof
    assume "length items \<le> 1"
    then obtain x where "set items \<subseteq> {x}"
      by (cases items) auto
    then have "(p1, d1) = x" "(p2, d2) = x"
      using assms(1,2) by (auto simp add: items_def)
    then show False using assms(3) by auto
  qed
  have order: "\<not> same_snp_order None items"
  proof
    assume a: "same_snp_order None items"
    obtain prefix data rest where i: "items = (prefix, data) # rest"
      using two by (cases items) auto
    have "map fst d = map fst data" if "(p, d) \<in> set items" for p d
      using that a unfolding i by (auto simp add: same_snp_order_None same_snp_order_Some)
    then have "map fst d1 = map fst data" "map fst d2 = map fst data"
      using assms(1,2) by (auto simp add: items_def)
    then show False using assms(3) by simp
  qed
  show ?thesis
    using two order by (simp add: validate_map_consistency_def Let_def items_def [symmetric])
qed

lemma run_stages:
  "run e now =
     (let s1 = load_split_table e ''split_plink.txt'' init;
          s2 = snd (find_plink_files e s1);
          s3 = load_pairs e (fst (find_plink_files e s1)) s2;
          s4 = snd (validate_map_consistency s3);
          s5 = snd (validate_data_integrity s4) in
      if error_status s1 then (Exit1, s1)
      else if error_status s2 then (Exit1, s2)
      else if error_status s3 then (Exit1, s3)
      else if \<not> fst (validate_map_consistency s3) then (Exit1, s4)
      else if \<not> fst (validate_data_integrity s4) then (Exit1, s5)
      else (Returned, split_by_breed e now s5))"
  by (simp add: run_def Let_def case_prod_unfold)

lemma run_exits_on_defect:
  "let s1 = load_split_table e ''split_plink.txt'' init;
       s2 = snd (find_plink_files e s1);
       s3 = load_pairs e (fst (find_plink_files e s1)) s2;
       s4 = snd (validate_map_consistency s3);
       s5 = snd (validate_data_integrity s4) in
   list_ex is_defect (printed s1) \<or> list_ex is_defect (printed s2)
     \<or> list_ex is_defect (printed s3) \<or> list_ex is_defect (printed s4)
     \<or> list_ex is_defect (printed s5)
   \<longrightarrow> fst (run e now) = Exit1"
proof -
  define s1 where "s1 = load_split_table e ''split_plink.txt'' init"
  define s2 where "s2 = snd (find_plink_files e s1)"
  define s3 where "s3 = load_pairs e (fst (find_plink_files e s1)) s2"
  define s4 where "s4 = snd (validate_map_consistency s3)"
  define s5 where "s5 = snd (validate_data_integrity s4)"
  have i1: "gate_invariant s1"
    unfolding s1_def by (intro gate_invariant_load_split_table gate_invariant_init)
  have i2: "gate_invariant s2"
    unfolding s2_def by (intro gate_invariant_find_plink_files i1)
  have i3: "gate_invariant s3"
    unfolding s3_def by (intro gate_invariant_load_pairs i2)
  have i4: "gate_invariant s4"
    unfolding s4_def by (intro gate_invariant_validate_map_consistency i3)
  have i5: "gate_invariant s5"
    unfolding s5_def by (intro gate_invariant_validate_data_integrity i4)
  have v4: "error_status s4 \<longrightarrow> error_status s3 \<or> \<not> fst (validate_map_consistency s3)"
    by (simp add: s4_def validate_map_consistency_def Let_def)
  have v5: "fst (validate_data_integrity s4) = (\<not> error_status s5)"
    by (simp add: s5_def validate_data_integrity_flag)
  have r: "fst (run e now) =
     (if error_status s1 \<or> error_status s2 \<or> error_status s3
         \<or> \<not> fst (validate_map_consistency s3) \<or> error_status s5
      then Exit1 else Returned)"
    by (simp add: run_stages Let_def s1_def s2_def s3_def s4_def s5_def validate_data_integrity_flag)
  have "list_ex is_defect (printed s1) \<or> list_ex is_defect (printed s2)
     \<or> list_ex is_defect (printed s3) \<or> list_ex is_defect (printed s4)
     \<or> list_ex is_defect (printed s5)
   \<longrightarrow> fst (run e now) = Exit1"
    unfolding r using i1 i2 i3 i4 i5 v4 by (auto simp add: gate_invariant_def)
  then show ?thesis
    by (simp add: Let_def s1_def s2_def s3_def s4_def s5_def)
qed

text \<open>
  Claim C4. When two loaded marker tables differ in the order of their marker ids, the
  consistency check fails, sets the error flag and prints one \<open>InconsistentSchema\<close>
  message; with exactly two tables of equal row count the message is the one about the
  marker order. Partitioning does nothing when the error flag is set. In a run, a
  failed consistency check ends the run with \<open>sys.exit(1)\<close>; more generally a defect
  in the log after any of the load and validation steps ends the run with \<open>sys.exit(1)\<close>,
  and a run that exits has written no file: partitioning was never called.
\<close>

theorem inconsistent_marker_order_stops_run:
  "((p1, d1) \<in> set (DAList.impl_of (map_data s)) \<and> (p2, d2) \<in> set (DAList.impl_of (map_data s))
      \<and> map fst d1 \<noteq> map fst d2 \<longrightarrow>
        validate_map_consistency s =
          (False, fail (InconsistentSchema
             (if length (remdups (map (\<lambda>(prefix, data). length data) (DAList.impl_of (map_data s)))) > 1
              then RowCounts else MarkerOrder)) s))
   \<and> (DAList.impl_of (map_data s) = [(p1, d1), (p2, d2)] \<and> length d1 = length d2
        \<and> map fst d1 \<noteq> map fst d2 \<longrightarrow>
         validate_map_consistency s = (False, fail (InconsistentSchema MarkerOrder) s))
   \<and> (error_status s \<longrightarrow> split_by_breed e now s = s)
   \<and> (let s1 = load_split_table e ''split_plink.txt'' init;
           s3 = load_pairs e (fst (find_plink_files e s1)) (snd (find_plink_files e s1)) in
       \<not> fst (validate_map_consistency s3) \<longrightarrow> fst (run e now) = Exit1)
   \<and> (let s1 = load_split_table e ''split_plink.txt'' init;
           s2 = snd (find_plink_files e s1);
           s3 = load_pairs e (fst (find_plink_files e s1)) s2;
           s4 = snd (validate_map_consistency s3);
           s5 = snd (validate_data_integrity s4) in
       list_ex is_defect (printed s1) \<or> list_ex is_defect (printed s2)
         \<or> list_ex is_defect (printed s3) \<or> list_ex is_defect (printed s4)
         \<or> list_ex is_defect (printed s5)
       \<longrightarrow> fst (run e now) = Exit1)
   \<and> (fst (run e now) = Exit1 \<longrightarrow>
        archives (snd (run e now)) = [] \<and> loose (snd (run e now)) = [])"
proof (intro conjI impI)
  assume "(p1, d1) \<in> set (DAList.impl_of (map_data s)) \<and> (p2, d2) \<in> set (DAList.impl_of (map_data s))
      \<and> map fst d1 \<noteq> map fst d2"
  then show "validate_map_consistency s =
          (False, fail (InconsistentSchema
             (if length (remdups (map (\<lambda>(prefix, data). length data) (DAList.impl_of (map_data s)))) > 1
              then RowCounts else MarkerOrder)) s)"
    using validate_map_consistency_differing by blast
next
  assume a: "DAList.impl_of (map_data s) = [(p1, d1), (p2, d2)] \<and> length d1 = length d2
        \<and> map fst d1 \<noteq> map fst d2"
  then show "validate_map_consistency s = (False, fail (InconsistentSchema MarkerOrder) s)"
    by (simp add: validate_map_consistency_def Let_def)
next
  assume "error_status s"
  then show "split_by_breed e now s = s"
    by (simp add: split_by_breed_def)
next
  show "let s1 = load_split_table e ''split_plink.txt'' init;
           s3 = load_pairs e (fst (find_plink_files e s1)) (snd (find_plink_files e s1)) in
       \<not> fst (validate_map_consistency s3) \<longrightarrow> fst (run e now) = Exit1"
    by (simp add: run_stages Let_def)
next
  show "let s1 = load_split_table e ''split_plink.txt'' init;
           s2 = snd (find_plink_files e s1);
           s3 = load_pairs e (fst (find_plink_files e s1)) s2;
           s4 = snd (validate_map_consistency s3);
           s5 = snd (validate_data_integrity s4) in
       list_ex is_defect (printed s1) \<or> list_ex is_defect (printed s2)
         \<or> list_ex is_defect (printed s3) \<or> list_ex is_defect (printed s4)
         \<or> list_ex is_defect (printed s5)
       \<longrightarrow> fst (run e now) = Exit1"
    by (rule run_exits_on_defect)
next
  assume "fst (run e now) = Exit1"
  then show "archives (snd (run e now)) = []" "loose (snd (run e now)) = []"
    using run_gate by blast+
qed


lemma ex_transposed_fields:
  "DAList.impl_of (map_data ex_transposed) =
     [(''a'', [(''M1'', ''1'', ''100'', ''0''), (''M2'', ''1'', ''200'', ''0'')]),
      (''b'', [(''M2'', ''1'', ''200'', ''0''), (''M1'', ''1'', ''100'', ''0'')])]"
  "error_status ex_transposed = False"
  "printed ex_transposed = [LoadedMappings 2]"
  "archives ex_transposed = []"
  by (simp_all add: ex_transposed_def ex_transposed_env_def row_def init_def load_split_table_def
        strip_def isspace_def fail_def report_def Let_def load_pair_def load_map_file_def
        load_ped_file_def drop_last4_def map_record_def ped_record_def
        DAList.lookup.rep_eq DAList.update.rep_eq DAList.empty.rep_eq)

lemma ex_transposed_loaded:
  "load_pairs ex_transposed_env
     (fst (find_plink_files ex_transposed_env
        (load_split_table ex_transposed_env ''split_plink.txt'' init)))
     (snd (find_plink_files ex_transposed_env
        (load_split_table ex_transposed_env ''split_plink.txt'' init))) = ex_transposed"
  by (simp add: ex_transposed_def ex_transposed_env_def row_def init_def load_split_table_def
        strip_def isspace_def fail_def report_def Let_def find_plink_files_def endswith_def
        drop_last4_def exists_def DAList.lookup.rep_eq DAList.update.rep_eq DAList.empty.rep_eq)

theorem inconsistent_marker_order_stops_run_witness:
  "DAList.impl_of (map_data ex_transposed) =
     [(''a'', [(''M1'', ''1'', ''100'', ''0''), (''M2'', ''1'', ''200'', ''0'')]),
      (''b'', [(''M2'', ''1'', ''200'', ''0''), (''M1'', ''1'', ''100'', ''0'')])]
   \<and> validate_map_consistency ex_transposed
        = (False, fail (InconsistentSchema MarkerOrder) ex_transposed)
   \<and> error_status (fail (InconsistentSchema MarkerOrder) ex_transposed)
   \<and> split_by_breed ex_transposed_env ''T'' (fail (InconsistentSchema MarkerOrder) ex_transposed)
        = fail (InconsistentSchema MarkerOrder) ex_transposed
   \<and> fst (run ex_transposed_env ''T'') = Exit1
   \<and> archives (snd (run ex_transposed_env ''T'')) = []
   \<and> loose (snd (run ex_transposed_env ''T'')) = []"
proof -
  note f = ex_transposed_fields
  have v: "validate_map_consistency ex_transposed
        = (False, fail (InconsistentSchema MarkerOrder) ex_transposed)"
    using inconsistent_marker_order_stops_run
      [of "''a''" "[(''M1'', ''1'', ''100'', ''0''), (''M2'', ''1'', ''200'', ''0'')]" ex_transposed
          "''b''" "[(''M2'', ''1'', ''200'', ''0''), (''M1'', ''1'', ''100'', ''0'')]"]
    by (simp add: f)
  have e: "error_status (fail (InconsistentSchema MarkerOrder) ex_transposed)"
    by (simp add: fail_def)
  have g: "split_by_breed ex_transposed_env ''T'' (fail (InconsistentSchema MarkerOrder) ex_transposed)
        = fail (InconsistentSchema MarkerOrder) ex_transposed"
    using inconsistent_marker_order_stops_run
      [where s = "fail (InconsistentSchema MarkerOrder) ex_transposed" and now = "''T''"
         and e = ex_transposed_env] e
    by blast
  have x: "fst (run ex_transposed_env ''T'') = Exit1"
    using inconsistent_marker_order_stops_run [where e = ex_transposed_env and now = "''T''"]
    by (simp add: Let_def ex_transposed_loaded v)
  have a: "archives (snd (run ex_transposed_env ''T'')) = []"
      "loose (snd (run ex_transposed_env ''T'')) = []"
    using inconsistent_marker_order_stops_run [where e = ex_transposed_env and now = "''T''"] x
    by blast+
  show ?thesis using f(1) v e g x a by simp
qed

section \<open>Groups of the mapping table\<close>

lemma group_by_breed_lookup:
  "DAList.lookup (group_by_breed tbl groups) b =
     (let new = map (\<lambda>(chip_id, sample_name, breed). (chip_id, sample_name))
                  (filter (\<lambda>(chip_id, sample_name, breed). breed = b) tbl) in
      case DAList.lookup groups b of
        None \<Rightarrow> if new = [] then None else Some new
      | Some l \<Rightarrow> Some (l @ new))"
proof (induction tbl arbitrary: groups)
  case Nil
  then show ?case by (simp split: option.splits)
next
  case (Cons x tbl)
  obtain chip_id sample_name breed where x: "x = (chip_id, sample_name, breed)"
    by (cases x)
  show ?case
    by (cases "breed = b") (auto simp add: x Cons.IH Let_def DAList.lookup_update split: option.splits)
qed

lemma breed_groups_entry:
  assumes "(b, samples) \<in> set (breed_groups s)"
  shows "samples = map (\<lambda>(chip_id, sample_name, breed). (chip_id, sample_name))
                     (filter (\<lambda>(chip_id, sample_name, breed). breed = b)
                        (DAList.impl_of (split_table s)))"
proof -
  have "DAList.lookup (group_by_breed (DAList.impl_of (split_table s)) DAList.empty) b = Some samples"
    using assms by (simp add: breed_groups_def DAList.lookup.rep_eq)
  then show ?thesis
    by (simp add: group_by_breed_lookup Let_def split: if_splits)
qed




lemma breed_groups_keys:
  "fst ` set (breed_groups s) =
     (\<lambda>(chip_id, sample_name, breed). breed) ` set (DAList.impl_of (split_table s))"
proof -
  have "b \<in> fst ` set (breed_groups s) \<longleftrightarrow>
          DAList.lookup (group_by_breed (DAList.impl_of (split_table s)) DAList.empty) b \<noteq> None" for b
    by (simp add: breed_groups_def DAList.lookup.rep_eq map_of_eq_None_iff)
  moreover have "DAList.lookup (group_by_breed (DAList.impl_of (split_table s)) DAList.empty) b \<noteq> None
          \<longleftrightarrow> b \<in> (\<lambda>(chip_id, sample_name, breed). breed) ` set (DAList.impl_of (split_table s))" for b
    by (force simp add: group_by_breed_lookup Let_def filter_empty_conv image_iff)
  ultimately show ?thesis by blast
qed

lemma validated_state:
  assumes "fst (validate_data_integrity s)"
  shows "\<not> error_status s"
    and "set (map fst (DAList.impl_of (split_table s)))
           = set (map sample_id_of (concat (map snd (DAList.impl_of (ped_data s)))))"
    and "snd (validate_data_integrity s) = s"
proof -
  define chips where "chips = map fst (DAList.impl_of (split_table s))"
  define ids where "ids = all_sample_ids s"
  from assms have a: "\<not> error_status s"
      "filter (\<lambda>chip_id. chip_id \<notin> set ids) chips = []" "length chips = length ids"
    by (simp_all add: validate_data_integrity_eq Let_def chips_def ids_def)
  show "\<not> error_status s" by (rule a(1))
  have sub: "set chips \<subseteq> set ids"
    using a(2) by (auto simp add: filter_empty_conv)
  have "distinct chips" "distinct ids"
    by (simp_all add: chips_def ids_def all_sample_ids_def)
  then have "card (set chips) = card (set ids)"
    using a(3) by (simp add: distinct_card)
  then have "set chips = set ids"
    using sub by (simp add: card_subset_eq)
  then show "set (map fst (DAList.impl_of (split_table s)))
           = set (map sample_id_of (concat (map snd (DAList.impl_of (ped_data s)))))"
    by (simp add: chips_def ids_def all_sample_ids_def)
  show "snd (validate_data_integrity s) = s"
    using a by (simp add: validate_data_integrity_eq Let_def chips_def ids_def)
qed

lemma validated_lookup:
  assumes "fst (validate_data_integrity s)"
      and "(chip_id, entry) \<in> set (DAList.impl_of (split_table s))"
  shows "\<exists>r. lookup_sample chip_id (DAList.impl_of (ped_data s)) = Some r \<and> sample_id_of r = chip_id"
proof -
  have "chip_id \<in> set (map fst (DAList.impl_of (split_table s)))"
    using assms(2) by force
  then have "chip_id \<in> fst ` set (concat (map snd (DAList.impl_of (ped_data s))))"
    unfolding validated_state(2) [OF assms(1)] by simp
  then have "lookup_sample chip_id (DAList.impl_of (ped_data s)) \<noteq> None"
    by (simp add: lookup_sample_None)
  then show ?thesis
    using lookup_sample_id by fastforce
qed

lemma update_absent: "map_of al k = None \<Longrightarrow> AList.update k v al = al @ [(k, v)]"
  by (induction al) (auto split: if_splits)

lemma split_table_rows_file_order:
  "\<not> error_status (split_table_rows k ls s) \<Longrightarrow>
   DAList.impl_of (split_table (split_table_rows k ls s)) =
     DAList.impl_of (split_table s)
     @ map (\<lambda>line. (split_tab (strip line) ! 0, split_tab (strip line) ! 1, split_tab (strip line) ! 2)) ls"
proof (induction ls arbitrary: k s)
  case Nil
  then show ?case by simp
next
  case (Cons line rest)
  let ?p = "split_tab (strip line)"
  have stay: "error_status (split_table_rows (Suc k) rest (fail m s))" for m
    by (simp add: split_table_rows_flag fail_def)
  have wf: "length ?p = 3"
  proof (rule ccontr)
    assume "length ?p \<noteq> 3"
    then have "split_table_rows k (line # rest) s
                 = split_table_rows (Suc k) rest (fail (MalformedRow MappingTable k) s)"
      by (simp add: Let_def)
    then show False using Cons.prems stay by simp
  qed
  have new: "DAList.lookup (split_table s) (?p ! 0) = None"
  proof (rule ccontr)
    assume "DAList.lookup (split_table s) (?p ! 0) \<noteq> None"
    then have "split_table_rows k (line # rest) s
                 = split_table_rows (Suc k) rest (fail (DuplicateKey (?p ! 0)) s)"
      using wf by (simp add: Let_def)
    then show False using Cons.prems stay by simp
  qed
  let ?s' = "s\<lparr> split_table := DAList.update (?p ! 0) (?p ! 1, ?p ! 2) (split_table s) \<rparr>"
  have step: "split_table_rows k (line # rest) s = split_table_rows (Suc k) rest ?s'"
    using wf new by (simp add: Let_def)
  have "DAList.impl_of (split_table (split_table_rows (Suc k) rest ?s')) =
     DAList.impl_of (split_table ?s')
     @ map (\<lambda>line. (split_tab (strip line) ! 0, split_tab (strip line) ! 1, split_tab (strip line) ! 2)) rest"
    using Cons.prems unfolding step by (rule Cons.IH)
  moreover have "DAList.impl_of (split_table ?s') =
      DAList.impl_of (split_table s) @ [(?p ! 0, ?p ! 1, ?p ! 2)]"
    using new by (simp add: DAList.update.rep_eq DAList.lookup.rep_eq update_absent)
  ultimately show ?case
    unfolding step by simp
qed

lemma load_split_table_file_order:
  assumes "files e filename = Some content"
      and "\<not> error_status (load_split_table e filename init)"
  shows "DAList.impl_of (split_table (load_split_table e filename init)) =
           map (\<lambda>line. (split_tab (strip line) ! 0, split_tab (strip line) ! 1,
                          split_tab (strip line) ! 2)) (py_lines content)"
proof -
  have c: "content \<noteq> []"
    using assms by (auto simp add: load_split_table_def fail_def)
  have e: "\<not> error_status (split_table_rows 1 (py_lines content) init)"
    using assms c by (simp add: load_split_table_def Let_def report_def)
  show ?thesis
    using split_table_rows_file_order [OF e] assms(1) c
    by (simp add: load_split_table_def Let_def report_def init_def DAList.empty.rep_eq)
qed

section \<open>Order of the rows of a group\<close>

text \<open>
  Claim C3. In a state that passes the integrity check and holds a marker table,
  partitioning writes one archive for each group of the mapping table whose output files
  can be created, in the order of the groups; a group whose files cannot be created gets
  no archive. The entries of a written group are the entries of the mapping table with
  that group label, in the order of the mapping table; the sample file of the group
  holds, in that order, the record found for each entry, whose sample id is the chip id
  of the entry, and the identifier-translation file holds the line of each entry in the
  same order. The order of the records in the sample files plays no part. (By \<open>load_split_table_file_order\<close> the order of the
  mapping table in memory is the order of the lines of its file.)
\<close>

theorem group_rows_follow_mapping_order:
  assumes "fst (validate_data_integrity s)" and "DAList.impl_of (map_data s) \<noteq> []"
  shows "let pd = DAList.impl_of (ped_data s);
             tbl = DAList.impl_of (split_table s);
             template = snd (hd (DAList.impl_of (map_data s)));
             written = filter (\<lambda>(breed, samples). bundle_writable e (breed @ ''_'' @ now))
                         (breed_groups s) in
         archives (split_by_breed e now s) =
           archives s @ map (\<lambda>(breed, samples).
                               (breed @ ''_'' @ now @ ''.zip'', breed_files template pd samples))
                          written
         \<and> fst ` set (breed_groups s) = (\<lambda>(chip_id, sample_name, breed). breed) ` set tbl
         \<and> (\<forall>(breed, samples) \<in> set written.
               samples = map (\<lambda>(chip_id, sample_name, b). (chip_id, sample_name))
                           (filter (\<lambda>(chip_id, sample_name, b). b = breed) tbl)
               \<and> ped_out (breed_files template pd samples) =
                   map (\<lambda>(chip_id, sample_name). render_sample (the (lookup_sample chip_id pd))) samples
               \<and> map (\<lambda>(chip_id, sample_name). sample_id_of (the (lookup_sample chip_id pd))) samples
                   = map fst samples
               \<and> idmap_out (breed_files template pd samples) =
                   map (\<lambda>(chip_id, sample_name). chip_id @ TAB # sample_name @ [LF]) samples)"
proof -
  define pd where "pd = DAList.impl_of (ped_data s)"
  define tbl where "tbl = DAList.impl_of (split_table s)"
  define template where "template = snd (hd (DAList.impl_of (map_data s)))"
  define written where "written =
    filter (\<lambda>(breed, samples). bundle_writable e (breed @ ''_'' @ now)) (breed_groups s)"
  have ne: "\<not> error_status s"
    by (rule validated_state(1) [OF assms(1)])
  have arch: "archives (split_by_breed e now s) =
           archives s @ map (\<lambda>(breed, samples).
                               (breed @ ''_'' @ now @ ''.zip'', breed_files template pd samples))
                          written"
    by (simp add: split_by_breed_fields(1) [OF ne assms(2)] pd_def template_def written_def)
  have keys: "fst ` set (breed_groups s) = (\<lambda>(chip_id, sample_name, breed). breed) ` set tbl"
    by (simp add: breed_groups_keys tbl_def)
  have grp: "samples = map (\<lambda>(chip_id, sample_name, b). (chip_id, sample_name))
                           (filter (\<lambda>(chip_id, sample_name, b). b = breed) tbl)
               \<and> ped_out (breed_files template pd samples) =
                   map (\<lambda>(chip_id, sample_name). render_sample (the (lookup_sample chip_id pd))) samples
               \<and> map (\<lambda>(chip_id, sample_name). sample_id_of (the (lookup_sample chip_id pd))) samples
                   = map fst samples
               \<and> idmap_out (breed_files template pd samples) =
                   map (\<lambda>(chip_id, sample_name). chip_id @ TAB # sample_name @ [LF]) samples"
    if w: "(breed, samples) \<in> set written" for breed samples
  proof -
    have g: "(breed, samples) \<in> set (breed_groups s)"
      using w by (simp add: written_def)
    have s: "samples = map (\<lambda>(chip_id, sample_name, b). (chip_id, sample_name))
                           (filter (\<lambda>(chip_id, sample_name, b). b = breed) tbl)"
      using breed_groups_entry [OF g] by (simp add: tbl_def)
    have found: "\<exists>r. lookup_sample chip_id pd = Some r \<and> sample_id_of r = chip_id"
      if "(chip_id, sample_name) \<in> set samples" for chip_id sample_name
    proof -
      from that have "(chip_id, sample_name, breed) \<in> set tbl"
        unfolding s by auto
      then show ?thesis
        using validated_lookup [OF assms(1)] by (simp add: tbl_def pd_def)
    qed
    have all: "filter (\<lambda>(chip_id, sample_name). lookup_sample chip_id pd \<noteq> None) samples = samples"
      using found by (intro filter_True) fastforce
    have ids: "map (\<lambda>(chip_id, sample_name). sample_id_of (the (lookup_sample chip_id pd))) samples
                 = map fst samples"
      using found by (intro map_cong refl) fastforce
    have out: "ped_out (breed_files template pd samples) =
                   map (\<lambda>(chip_id, sample_name). render_sample (the (lookup_sample chip_id pd))) samples"
              "idmap_out (breed_files template pd samples) =
                   map (\<lambda>(chip_id, sample_name). chip_id @ TAB # sample_name @ [LF]) samples"
      unfolding breed_files_eq all by simp_all
    show ?thesis
      using s ids out by blast
  qed
  show ?thesis
    unfolding Let_def pd_def [symmetric] tbl_def [symmetric] template_def [symmetric]
      written_def [symmetric]
    using arch keys grp by blast
qed

lemma ex_valid_validated: "fst (validate_data_integrity ex_valid)"
  by (simp add: validate_data_integrity_eq Let_def all_sample_ids_def ex_valid_fields)

lemma ex_valid_groups:
  "breed_groups ex_valid =
     [(''BreedB'', [(''S3'', ''Carol'')]), (''BreedA'', [(''S2'', ''Bob''), (''S1'', ''Alice'')])]"
  by (simp add: breed_groups_def ex_valid_fields DAList.lookup.rep_eq DAList.update.rep_eq
        DAList.empty.rep_eq)

theorem group_rows_follow_mapping_order_witness:
  "fst (validate_data_integrity ex_valid) \<and> DAList.impl_of (map_data ex_valid) \<noteq> []
   \<and> map sample_id_of (concat (map snd (DAList.impl_of (ped_data ex_valid)))) = [''S1'', ''S2'', ''S3'']
   \<and> map fst (DAList.impl_of (split_table ex_valid)) = [''S3'', ''S2'', ''S1'']
   \<and> archives (split_by_breed ex_valid_env ''T'' ex_valid) =
       [(''BreedB_T.zip'',
         \<lparr> ped_out = [row [''G'', ''S3'', ''0'', ''0'', ''1'', ''-9'', ''T'', ''T'']],
           map_out = [row [''1'', ''M1'', ''0'', ''100'']],
           idmap_out = [row [''S3'', ''Carol'']] \<rparr>),
        (''BreedA_T.zip'',
         \<lparr> ped_out = [row [''F'', ''S2'', ''0'', ''0'', ''2'', ''-9'', ''C'', ''C''],
                      row [''F'', ''S1'', ''0'', ''0'', ''1'', ''-9'', ''A'', ''G'']],
           map_out = [row [''1'', ''M1'', ''0'', ''100'']],
           idmap_out = [row [''S2'', ''Bob''], row [''S1'', ''Alice'']] \<rparr>)]"
proof -
  have m: "DAList.impl_of (map_data ex_valid) \<noteq> []"
    by (simp add: ex_valid_fields)
  show ?thesis
    using group_rows_follow_mapping_order [OF ex_valid_validated m, of ex_valid_env "''T''"]
    by (simp add: ex_valid_validated Let_def ex_valid_fields ex_valid_groups breed_files_eq
          bundle_writable_def ex_valid_env_def flat_name_def
          row_def render_sample_def render_marker_def)
qed

section \<open>The marker file of a group\<close>

lemma split_tab_nonempty: "split_tab s \<noteq> []"
  by (induction s) (auto split: list.splits)

lemma join_tab_Cons: "ps \<noteq> [] \<Longrightarrow> join_tab (p # ps) = p @ TAB # join_tab ps"
  by (cases ps) simp_all

lemma join_tab_Cons_char: "join_tab ((c # p) # ps) = c # join_tab (p # ps)"
  by (cases ps) simp_all

lemma join_split_tab: "join_tab (split_tab s) = s"
proof (induction s)
  case Nil
  then show ?case by simp
next
  case (Cons c s)
  show ?case
  proof (cases "c = TAB")
    case True
    then show ?thesis
      using Cons.IH by (simp add: join_tab_Cons split_tab_nonempty)
  next
    case False
    obtain p ps where sp: "split_tab s = p # ps"
      using split_tab_nonempty [of s] by (cases "split_tab s") auto
    show ?thesis
      using False Cons.IH by (simp add: sp join_tab_Cons_char)
  qed
qed

lemma render_map_record:
  assumes "length parts = 4"
  shows "render_marker (map_record parts) = join_tab parts @ [LF]"
proof -
  obtain a b c d where "parts = [a, b, c, d]"
    using assms by (auto simp add: numeral_eq_Suc length_Suc_conv)
  then show ?thesis
    by (simp add: render_marker_def map_record_def)
qed

lemma load_map_file_round_trip:
  assumes "files e filename = Some content"
      and "\<forall>line \<in> set (py_lines content). length (split_tab (strip line)) = 4"
  shows "map render_marker (fst (load_map_file e filename s0)) =
           map (\<lambda>line. strip line @ [LF]) (py_lines content)"
proof -
  have all: "filter (\<lambda>parts. length parts = 4) (map (\<lambda>line. split_tab (strip line)) (py_lines content))
           = map (\<lambda>line. split_tab (strip line)) (py_lines content)"
    using assms(2) by (intro filter_True) auto
  show ?thesis
    unfolding load_map_file_eq [OF assms(1)] fst_conv all
    using assms(2) by (simp add: render_map_record join_split_tab)
qed

text \<open>
  Claim C7. In a state that passes the integrity check and holds a marker table,
  partitioning writes an archive for each group whose output files can be created (and
  none for the other groups), and the marker file of every archive that it writes is the
  rendering of the first marker table of \<open>map_data\<close>, row by row. The rendering of a parsed four-column row
  is its four columns in the order read, joined by tabs; so for a marker file all of
  whose lines have four columns, what is written is the file, line by line, each line
  stripped of surrounding white space.
\<close>

theorem marker_file_is_template:
  assumes "fst (validate_data_integrity s)" and "DAList.impl_of (map_data s) \<noteq> []"
  shows "archives (split_by_breed e now s) =
           archives s @ map (\<lambda>(breed, samples).
                 (breed @ ''_'' @ now @ ''.zip'',
                  breed_files (snd (hd (DAList.impl_of (map_data s))))
                    (DAList.impl_of (ped_data s)) samples))
             (filter (\<lambda>(breed, samples). bundle_writable e (breed @ ''_'' @ now))
                (breed_groups s))
       \<and> (\<forall>pd samples. map_out (breed_files (snd (hd (DAList.impl_of (map_data s)))) pd samples)
             = map render_marker (snd (hd (DAList.impl_of (map_data s)))))
       \<and> (\<forall>parts. length parts = 4 \<longrightarrow> render_marker (map_record parts) = join_tab parts @ [LF])
       \<and> (\<forall>e' filename content s0.
             files e' filename = Some content
             \<and> (\<forall>line \<in> set (py_lines content). length (split_tab (strip line)) = 4) \<longrightarrow>
               map render_marker (fst (load_map_file e' filename s0)) =
                 map (\<lambda>line. strip line @ [LF]) (py_lines content))"
proof (intro conjI allI impI)
  show "archives (split_by_breed e now s) =
           archives s @ map (\<lambda>(breed, samples).
                 (breed @ ''_'' @ now @ ''.zip'',
                  breed_files (snd (hd (DAList.impl_of (map_data s))))
                    (DAList.impl_of (ped_data s)) samples))
             (filter (\<lambda>(breed, samples). bundle_writable e (breed @ ''_'' @ now))
                (breed_groups s))"
    by (rule split_by_breed_fields(1) [OF validated_state(1) [OF assms(1)] assms(2)])
next
  fix pd samples
  show "map_out (breed_files (snd (hd (DAList.impl_of (map_data s)))) pd samples)
             = map render_marker (snd (hd (DAList.impl_of (map_data s))))"
    by (simp add: breed_files_eq)
next
  fix parts :: "string list"
  assume "length parts = 4"
  then show "render_marker (map_record parts) = join_tab parts @ [LF]"
    by (rule render_map_record)
next
  fix e' :: env and filename content and s0 :: splitter
  assume "files e' filename = Some content
             \<and> (\<forall>line \<in> set (py_lines content). length (split_tab (strip line)) = 4)"
  then show "map render_marker (fst (load_map_file e' filename s0)) =
                 map (\<lambda>line. strip line @ [LF]) (py_lines content)"
    using load_map_file_round_trip by blast
qed

theorem marker_file_is_template_witness:
  "fst (validate_data_integrity ex_valid) \<and> DAList.impl_of (map_data ex_valid) \<noteq> []
   \<and> snd (hd (DAList.impl_of (map_data ex_valid))) = [(''M1'', ''1'', ''100'', ''0'')]
   \<and> map (map_out \<circ> snd) (archives (split_by_breed ex_valid_env ''T'' ex_valid)) =
       [[row [''1'', ''M1'', ''0'', ''100'']], [row [''1'', ''M1'', ''0'', ''100'']]]
   \<and> files ex_valid_env ''a.map'' = Some (row [''1'', ''M1'', ''0'', ''100''])
   \<and> map render_marker (fst (load_map_file ex_valid_env ''a.map'' init)) =
       [row [''1'', ''M1'', ''0'', ''100'']]
   \<and> render_marker (map_record [''1'', ''M1'', ''0'', ''100'']) = row [''1'', ''M1'', ''0'', ''100'']"
proof -
  have m: "DAList.impl_of (map_data ex_valid) \<noteq> []"
    by (simp add: ex_valid_fields)
  have f: "files ex_valid_env ''a.map'' = Some (row [''1'', ''M1'', ''0'', ''100''])"
    by (simp add: ex_valid_env_def)
  have l: "py_lines (row [''1'', ''M1'', ''0'', ''100'']) = [row [''1'', ''M1'', ''0'', ''100'']]"
    by (simp add: row_def)
  note t = marker_file_is_template [OF ex_valid_validated m, of ex_valid_env "''T''"]
  have a: "map (map_out \<circ> snd) (archives (split_by_breed ex_valid_env ''T'' ex_valid)) =
       [[row [''1'', ''M1'', ''0'', ''100'']], [row [''1'', ''M1'', ''0'', ''100'']]]"
    using t by (simp add: ex_valid_fields ex_valid_groups row_def render_marker_def
                  bundle_writable_def ex_valid_env_def flat_name_def)
  have "files ex_valid_env ''a.map'' = Some (row [''1'', ''M1'', ''0'', ''100''])
             \<and> (\<forall>line \<in> set (py_lines (row [''1'', ''M1'', ''0'', ''100''])). length (split_tab (strip line)) = 4)"
    by (simp add: f l) (simp add: row_def strip_def isspace_def)
  then have b: "map render_marker (fst (load_map_file ex_valid_env ''a.map'' init)) =
       map (\<lambda>line. strip line @ [LF]) (py_lines (row [''1'', ''M1'', ''0'', ''100'']))"
    using t by blast
  have b': "map render_marker (fst (load_map_file ex_valid_env ''a.map'' init)) =
       [row [''1'', ''M1'', ''0'', ''100'']]"
    unfolding b l by (simp add: row_def strip_def isspace_def)
  have "length [''1'', ''M1'', ''0'', ''100''] = 4"
    by simp
  then have "render_marker (map_record [''1'', ''M1'', ''0'', ''100''])
               = join_tab [''1'', ''M1'', ''0'', ''100''] @ [LF]"
    using t by blast
  then have c: "render_marker (map_record [''1'', ''M1'', ''0'', ''100''])
               = row [''1'', ''M1'', ''0'', ''100'']"
    by (simp add: row_def)
  show ?thesis
    using ex_valid_validated m a f b' c by (simp add: ex_valid_fields)
qed

section \<open>Round trip of the sample rows\<close>







section \<open>Runs that reach partitioning\<close>

text \<open>
  A run that returns has partitioned the state \<open>loaded e\<close>; that state passes the
  integrity check, holds a marker table, and has no archive yet. These are the
  assumptions of the theorems on partitioning above.
\<close>

lemma scan_listing_tables:
  "split_table (snd (scan_listing e names found s)) = split_table s"
  "map_data (snd (scan_listing e names found s)) = map_data s"
  "ped_data (snd (scan_listing e names found s)) = ped_data s"
  by (induction e names found s rule: scan_listing.induct) (simp_all add: Let_def fail_def)

lemma find_plink_files_tables:
  "split_table (snd (find_plink_files e s)) = split_table s"
  "map_data (snd (find_plink_files e s)) = map_data s"
  "ped_data (snd (find_plink_files e s)) = ped_data s"
  using scan_listing_tables [of e "listing e" "([], [])" s]
  by (auto simp add: find_plink_files_def Let_def fail_def split: prod.splits)

lemma load_map_file_tables:
  "split_table (snd (load_map_file e filename s)) = split_table s"
  "map_data (snd (load_map_file e filename s)) = map_data s"
  "ped_data (snd (load_map_file e filename s)) = ped_data s"
  by (simp_all add: load_map_file_def map_rows_eq fail_def split: option.splits)

lemma load_ped_file_tables:
  "split_table (snd (load_ped_file e filename n s)) = split_table s"
  "map_data (snd (load_ped_file e filename n s)) = map_data s"
  "ped_data (snd (load_ped_file e filename n s)) = ped_data s"
  by (simp_all add: load_ped_file_def Let_def ped_rows_eq fail_def split: option.splits)

lemma load_pair_tables:
  "split_table (load_pair e pair s) = split_table s"
  "DAList.impl_of (ped_data s) \<noteq> [] \<longrightarrow> DAList.impl_of (map_data s) \<noteq> [] \<Longrightarrow>
   DAList.impl_of (ped_data (load_pair e pair s)) \<noteq> []
     \<longrightarrow> DAList.impl_of (map_data (load_pair e pair s)) \<noteq> []"
proof -
  obtain md s1 where m: "load_map_file e (fst pair) s = (md, s1)"
    by (cases "load_map_file e (fst pair) s")
  define s2 where "s2 = s1\<lparr> map_data := DAList.update (drop_last4 (fst pair)) md (map_data s1) \<rparr>"
  obtain pd s3 where p: "load_ped_file e (snd pair) (length md) s2 = (pd, s3)"
    by (cases "load_ped_file e (snd pair) (length md) s2")
  have lp: "load_pair e pair s =
      (if md \<noteq> [] then
         (if pd \<noteq> [] then s3\<lparr> ped_data := DAList.update (drop_last4 (fst pair)) pd (ped_data s3) \<rparr>
          else s3)
       else s1)"
    by (simp add: load_pair_def Let_def m s2_def [symmetric] p)
  have s1: "split_table s1 = split_table s" "map_data s1 = map_data s" "ped_data s1 = ped_data s"
    using load_map_file_tables [of e "fst pair" s] by (simp_all add: m)
  have s3: "split_table s3 = split_table s2" "map_data s3 = map_data s2" "ped_data s3 = ped_data s2"
    using load_ped_file_tables [of e "snd pair" "length md" s2] by (simp_all add: p)
  have s2: "split_table s2 = split_table s" "DAList.impl_of (map_data s2) \<noteq> []"
    by (simp_all add: s2_def s1 DAList.update.rep_eq)
  show "split_table (load_pair e pair s) = split_table s"
    by (simp add: lp s1 s3 s2)
  show "DAList.impl_of (ped_data (load_pair e pair s)) \<noteq> []
     \<longrightarrow> DAList.impl_of (map_data (load_pair e pair s)) \<noteq> []"
    if "DAList.impl_of (ped_data s) \<noteq> [] \<longrightarrow> DAList.impl_of (map_data s) \<noteq> []"
    using that by (simp add: lp s1 s3 s2)
qed

lemma load_pairs_tables:
  "split_table (load_pairs e pairs s) = split_table s"
  "DAList.impl_of (ped_data s) \<noteq> [] \<longrightarrow> DAList.impl_of (map_data s) \<noteq> [] \<Longrightarrow>
   DAList.impl_of (ped_data (load_pairs e pairs s)) \<noteq> []
     \<longrightarrow> DAList.impl_of (map_data (load_pairs e pairs s)) \<noteq> []"
proof (induction pairs arbitrary: s)
  case Nil
  { case 1 show ?case by simp }
  { case 2 then show ?case by simp }
next
  case (Cons pair pairs)
  { case 1 show ?case by (simp add: Cons.IH(1) load_pair_tables(1)) }
  { case 2 then show ?case
      using Cons.IH(2) [OF load_pair_tables(2)] by simp }
qed


lemma split_table_rows_tables:
  "map_data (split_table_rows k ls s) = map_data s"
  "ped_data (split_table_rows k ls s) = ped_data s"
  by (induction ls arbitrary: k s) (simp_all add: Let_def fail_def)

lemma load_split_table_tables:
  "map_data (load_split_table e filename s) = map_data s"
  "ped_data (load_split_table e filename s) = ped_data s"
  by (simp_all add: load_split_table_def Let_def fail_def report_def split_table_rows_tables
        split: option.splits)

lemma load_split_table_nonempty:
  assumes "\<not> error_status (load_split_table e filename init)"
  shows "DAList.impl_of (split_table (load_split_table e filename init)) \<noteq> []"
proof -
  obtain content where c1: "files e filename = Some content"
    using assms by (cases "files e filename") (auto simp add: load_split_table_def fail_def)
  have c2: "content \<noteq> []"
  proof
    assume "content = []"
    then have "load_split_table e filename init = fail (EmptyInput filename) init"
      using c1 by (simp add: load_split_table_def)
    then show False using assms by (simp add: fail_def)
  qed
  note c = c1 c2
  show ?thesis
    using c(2) by (simp add: load_split_table_file_order [OF c(1) assms] py_lines_empty)
qed

lemma validate_map_consistency_pass:
  "fst (validate_map_consistency s) \<Longrightarrow> snd (validate_map_consistency s) = s"
  by (simp add: validate_map_consistency_def Let_def split: if_splits)

lemma run_returned:
  assumes "fst (run e now) = Returned"
  shows "snd (run e now) = split_by_breed e now (loaded e)"
    and "fst (validate_data_integrity (loaded e))"
    and "DAList.impl_of (map_data (loaded e)) \<noteq> []"
    and "archives (loaded e) = []"
proof -
  define s1 where "s1 = load_split_table e ''split_plink.txt'' init"
  define s2 where "s2 = snd (find_plink_files e s1)"
  define s3 where "s3 = load_pairs e (fst (find_plink_files e s1)) s2"
  have l: "loaded e = s3"
    by (simp add: loaded_def Let_def case_prod_unfold s1_def s2_def s3_def)
  have r: "run e now =
     (if error_status s1 then (Exit1, s1)
      else if error_status s2 then (Exit1, s2)
      else if error_status s3 then (Exit1, s3)
      else if \<not> fst (validate_map_consistency s3) then (Exit1, snd (validate_map_consistency s3))
      else if \<not> fst (validate_data_integrity (snd (validate_map_consistency s3)))
        then (Exit1, snd (validate_data_integrity (snd (validate_map_consistency s3))))
      else (Returned, split_by_breed e now
              (snd (validate_data_integrity (snd (validate_map_consistency s3))))))"
    by (simp add: run_stages Let_def s1_def s2_def s3_def)
  from assms have ok: "\<not> error_status s1" "fst (validate_map_consistency s3)"
      "fst (validate_data_integrity (snd (validate_map_consistency s3)))"
    unfolding r by (auto split: if_splits)
  have s4: "snd (validate_map_consistency s3) = s3"
    by (rule validate_map_consistency_pass [OF ok(2)])
  have v: "fst (validate_data_integrity s3)"
    using ok(3) by (simp add: s4)
  show "fst (validate_data_integrity (loaded e))"
    using v by (simp add: l)
  show "snd (run e now) = split_by_breed e now (loaded e)"
    using assms unfolding r by (simp add: l s4 validated_state(3) [OF v] split: if_splits)
  have "gate_invariant s3"
    unfolding s3_def s2_def s1_def
    by (intro gate_invariant_load_pairs gate_invariant_find_plink_files
          gate_invariant_load_split_table gate_invariant_init)
  then show "archives (loaded e) = []"
    by (simp add: l gate_invariant_def)
  have "DAList.impl_of (split_table s3) \<noteq> []"
    using load_split_table_nonempty [OF ok(1) [unfolded s1_def]]
    by (simp add: s3_def s2_def s1_def load_pairs_tables(1) find_plink_files_tables(1))
  then have "set (map fst (DAList.impl_of (split_table s3))) \<noteq> {}"
    by simp
  then have "DAList.impl_of (ped_data s3) \<noteq> []"
    unfolding validated_state(2) [OF v] by auto
  moreover have "DAList.impl_of (ped_data s3) \<noteq> [] \<longrightarrow> DAList.impl_of (map_data s3) \<noteq> []"
    unfolding s3_def
    by (rule load_pairs_tables(2))
       (simp add: s2_def s1_def find_plink_files_tables load_split_table_tables init_def
          DAList.empty.rep_eq)
  ultimately show "DAList.impl_of (map_data (loaded e)) \<noteq> []"
    by (simp add: l)
qed

end
